theory Spec2Isabelle
  imports Complex_Main "HOL-Library.Sublist"
begin

section \<open>JavaScript values\<close>

text \<open>
  \<^verbatim>\<open>src/monitor.js\<close> handles values that come out of parsed JSON responses, so the fields of
  a search hit or of a gist may hold any JSON value, or \<^verbatim>\<open>undefined\<close> when the key is
  absent. An object is the list of its own entries in enumeration order (keys distinct).
  A string is a \<^typ>\<open>string\<close>, one element for each code unit. Numbers are only ever
  tested for truthiness here, so an integer stands for them.
\<close>

datatype jsval =
    JUndefined
  | JNull
  | JBool bool
  | JNum int
  | JStr string
  | JArr "jsval list"
  | JObj "(string \<times> jsval) list"

text \<open>What a \<^verbatim>\<open>throw\<close> or a rejected promise carries: a \<^verbatim>\<open>TypeError\<close> of the language
  itself, or an error of a collaborator (the HTTP client, the scanner module).\<close>

datatype error = TypeError string | Rejected string

fun message :: "error \<Rightarrow> string" where
  "message (TypeError msg) = msg"
| "message (Rejected msg) = msg"

fun truthy :: "jsval \<Rightarrow> bool" where
  "truthy JUndefined = False"
| "truthy JNull = False"
| "truthy (JBool b) = b"
| "truthy (JNum n) = (n \<noteq> 0)"
| "truthy (JStr s) = (s \<noteq> [])"
| "truthy (JArr xs) = True"
| "truthy (JObj kvs) = True"

text \<open>\<^verbatim>\<open>a || b\<close>\<close>

definition js_or :: "jsval \<Rightarrow> jsval \<Rightarrow> jsval" where
  "js_or a b = (if truthy a then a else b)"

text \<open>
  \<^verbatim>\<open>v.name\<close>, for the names the program reads (\<^verbatim>\<open>items\<close>, \<^verbatim>\<open>repository\<close>,
  \<^verbatim>\<open>full_name\<close>, \<^verbatim>\<open>path\<close>, \<^verbatim>\<open>html_url\<close>, \<^verbatim>\<open>url\<close>, \<^verbatim>\<open>files\<close>, \<^verbatim>\<open>id\<close>,
  \<^verbatim>\<open>content\<close>): none of them is a built-in property of a string, number, boolean or
  array, so only an object can hold one; reading a property of \<^verbatim>\<open>undefined\<close> or
  \<^verbatim>\<open>null\<close> throws.
\<close>

fun js_prop :: "jsval \<Rightarrow> string \<Rightarrow> error + jsval" where
  "js_prop JUndefined name = Inl (TypeError (''Cannot read properties of undefined (reading '' @ name @ '')''))"
| "js_prop JNull name = Inl (TypeError (''Cannot read properties of null (reading '' @ name @ '')''))"
| "js_prop (JObj kvs) name = Inr (case map_of kvs name of Some v \<Rightarrow> v | None \<Rightarrow> JUndefined)"
| "js_prop v name = Inr JUndefined"

text \<open>\<^verbatim>\<open>for (const x of v)\<close>: the elements of an array, the characters of a string; nothing
  else that JSON can produce is iterable.\<close>

fun iterate :: "jsval \<Rightarrow> error + jsval list" where
  "iterate (JArr xs) = Inr xs"
| "iterate (JStr s) = Inr (map (\<lambda>c. JStr [c]) s)"
| "iterate v = Inl (TypeError ''value is not iterable'')"

function decimal :: "nat \<Rightarrow> string" where
  "decimal n = (if n < 10 then [''0123456789'' ! n]
                else decimal (n div 10) @ [''0123456789'' ! (n mod 10)])"
  by pat_completeness auto
termination
  by (relation "measure (\<lambda>n. n)") auto

text \<open>\<^verbatim>\<open>Object.entries(v)\<close>\<close>

fun entries :: "jsval \<Rightarrow> error + (string \<times> jsval) list" where
  "entries JUndefined = Inl (TypeError ''Cannot convert undefined or null to object'')"
| "entries JNull = Inl (TypeError ''Cannot convert undefined or null to object'')"
| "entries (JObj kvs) = Inr kvs"
| "entries (JArr xs) = Inr (zip (map decimal [0..<length xs]) xs)"
| "entries (JStr s) = Inr (zip (map decimal [0..<length s]) (map (\<lambda>c. JStr [c]) s))"
| "entries v = Inr []"

text \<open>\<^verbatim>\<open>v.includes(d)\<close> with a string argument: substring search on a string, membership
  on an array; no other JSON value has the method.\<close>

fun js_includes :: "jsval \<Rightarrow> string \<Rightarrow> error + bool" where
  "js_includes (JStr s) d = Inr (sublist d s)"
| "js_includes (JArr xs) d = Inr (JStr d \<in> set xs)"
| "js_includes v d = Inl (TypeError ''includes is not a function'')"

text \<open>\<^verbatim>\<open>v.substring(0, n)\<close>\<close>

fun substring0 :: "jsval \<Rightarrow> nat \<Rightarrow> error + string" where
  "substring0 (JStr s) n = Inr (take n s)"
| "substring0 v n = Inl (TypeError ''substring is not a function'')"

text \<open>\<^verbatim>\<open>xs.join(sep)\<close>\<close>

fun join :: "string \<Rightarrow> string list \<Rightarrow> string" where
  "join sep [] = []"
| "join sep [x] = x"
| "join sep (x # y # ys) = x @ sep @ join sep (y # ys)"

text \<open>
  The string that a template literal puts in the place of \<^verbatim>\<open>${v}\<close>. An object of a JSON
  response is turned into a string by the \<^verbatim>\<open>toString\<close> it inherits, unless it has a key
  \<^verbatim>\<open>toString\<close> of its own: the value under that key is no function, the inherited
  \<^verbatim>\<open>valueOf\<close> returns the object itself, and the conversion throws. An array joins the
  strings of its elements with commas, \<^verbatim>\<open>null\<close> giving the empty string, and throws if
  one of them does.
\<close>

fun to_string :: "jsval \<Rightarrow> error + string"
  and element_strings :: "jsval list \<Rightarrow> error + string list" where
  "to_string JUndefined = Inr ''undefined''"
| "to_string JNull = Inr ''null''"
| "to_string (JBool b) = Inr (if b then ''true'' else ''false'')"
| "to_string (JNum n) = Inr ((if n < 0 then ''-'' else []) @ decimal (nat \<bar>n\<bar>))"
| "to_string (JStr s) = Inr s"
| "to_string (JArr xs) =
     (case element_strings xs of Inl e \<Rightarrow> Inl e | Inr ss \<Rightarrow> Inr (join '','' ss))"
| "to_string (JObj kvs) =
     (case map_of kvs ''toString'' of
        Some v \<Rightarrow> Inl (TypeError ''Cannot convert object to primitive value'')
      | None \<Rightarrow> Inr ''[object Object]'')"
| "element_strings [] = Inr []"
| "element_strings (x # xs) =
     (case (if x = JUndefined \<or> x = JNull then Inr [] else to_string x) of
        Inl e \<Rightarrow> Inl e
      | Inr s1 \<Rightarrow> (case element_strings xs of Inl e \<Rightarrow> Inl e | Inr ss \<Rightarrow> Inr (s1 # ss)))"

section \<open>Effects: state, exceptions, \<^verbatim>\<open>try\<close>/\<^verbatim>\<open>catch\<close>\<close>

text \<open>
  A statement runs on a state and either completes with a value or throws; in both cases
  the state it has reached is kept, so what a \<^verbatim>\<open>try\<close> block did before it threw is
  still there in the \<^verbatim>\<open>catch\<close> block. An \<^verbatim>\<open>await\<close> is the plain call: the model follows
  one control flow and leaves out what other callbacks might do while it is suspended.
\<close>

type_synonym ('s, 'a) js = "'s \<Rightarrow> (error + 'a) \<times> 's"

definition js_return :: "'a \<Rightarrow> ('s, 'a) js" where
  "js_return x = (\<lambda>s. (Inr x, s))"

definition js_throw :: "error \<Rightarrow> ('s, 'a) js" where
  "js_throw e = (\<lambda>s. (Inl e, s))"

definition js_bind :: "('s, 'a) js \<Rightarrow> ('a \<Rightarrow> ('s, 'b) js) \<Rightarrow> ('s, 'b) js" where
  "js_bind c f = (\<lambda>s. case c s of (Inl e, s') \<Rightarrow> (Inl e, s') | (Inr x, s') \<Rightarrow> f x s')"

definition js_then :: "('s, 'a) js \<Rightarrow> ('s, 'b) js \<Rightarrow> ('s, 'b) js" where
  "js_then c d = js_bind c (\<lambda>_. d)"

definition try_catch :: "('s, 'a) js \<Rightarrow> (error \<Rightarrow> ('s, 'a) js) \<Rightarrow> ('s, 'a) js" where
  "try_catch c handler = (\<lambda>s. case c s of (Inl e, s') \<Rightarrow> handler e s' | (Inr x, s') \<Rightarrow> (Inr x, s'))"

definition js_when :: "bool \<Rightarrow> ('s, unit) js \<Rightarrow> ('s, unit) js" where
  "js_when b c = (if b then c else js_return ())"

text \<open>An expression without effects that may throw.\<close>

definition js_eval :: "error + 'a \<Rightarrow> ('s, 'a) js" where
  "js_eval r = (\<lambda>s. (r, s))"

fun for_of :: "'a list \<Rightarrow> ('a \<Rightarrow> ('s, unit) js) \<Rightarrow> ('s, unit) js" where
  "for_of [] body = js_return ()"
| "for_of (x # xs) body = js_then (body x) (for_of xs body)"

text \<open>
  The local variables of a running method are the first component of its state, the rest
  (the monitor and the world) the second: \<open>in_frame\<close> is the call, with the initial values
  of the locals, \<open>outer\<close> a statement that does not touch them.
\<close>

definition in_frame :: "'l \<Rightarrow> ('l \<times> 'g, 'a) js \<Rightarrow> ('g, 'a) js" where
  "in_frame l0 c = (\<lambda>g. case c (l0, g) of (r, (l, g')) \<Rightarrow> (r, g'))"

definition outer :: "('g, 'a) js \<Rightarrow> ('l \<times> 'g, 'a) js" where
  "outer c = (\<lambda>(l, g). case c g of (r, g') \<Rightarrow> (r, (l, g')))"

definition local_get :: "('l \<times> 'g, 'l) js" where
  "local_get = (\<lambda>(l, g). (Inr l, (l, g)))"

definition local_modify :: "('l \<Rightarrow> 'l) \<Rightarrow> ('l \<times> 'g, unit) js" where
  "local_modify f = (\<lambda>(l, g). (Inr (), (f l, g)))"

section \<open>Data model\<close>

text \<open>The objects the two connectors push: \<^verbatim>\<open>{type: 'code', repository, path, url,
  contentUrl}\<close> and \<^verbatim>\<open>{type: 'gist', id, filename, url, content}\<close>.\<close>

datatype item =
    CodeResult jsval jsval jsval jsval
  | GistResult jsval string jsval jsval

text \<open>Reading a field of an item; a field the object does not have is \<^verbatim>\<open>undefined\<close>.\<close>

fun item_type :: "item \<Rightarrow> string" where
  "item_type (CodeResult repository path url contentUrl) = ''code''"
| "item_type (GistResult gid filename url content) = ''gist''"

fun item_repository :: "item \<Rightarrow> jsval" where
  "item_repository (CodeResult repository path url contentUrl) = repository"
| "item_repository (GistResult gid filename url content) = JUndefined"

fun item_id :: "item \<Rightarrow> jsval" where
  "item_id (CodeResult repository path url contentUrl) = JUndefined"
| "item_id (GistResult gid filename url content) = gid"

fun item_path :: "item \<Rightarrow> jsval" where
  "item_path (CodeResult repository path url contentUrl) = path"
| "item_path (GistResult gid filename url content) = JUndefined"

fun item_filename :: "item \<Rightarrow> jsval" where
  "item_filename (CodeResult repository path url contentUrl) = JUndefined"
| "item_filename (GistResult gid filename url content) = JStr filename"

fun item_url :: "item \<Rightarrow> jsval" where
  "item_url (CodeResult repository path url contentUrl) = url"
| "item_url (GistResult gid filename url content) = url"

fun item_contentUrl :: "item \<Rightarrow> jsval" where
  "item_contentUrl (CodeResult repository path url contentUrl) = contentUrl"
| "item_contentUrl (GistResult gid filename url content) = JUndefined"

fun item_content :: "item \<Rightarrow> jsval" where
  "item_content (CodeResult repository path url contentUrl) = JUndefined"
| "item_content (GistResult gid filename url content) = content"

text \<open>A timestamp is the instant in milliseconds; its ISO string is determined by it.\<close>

record finding =
  timestamp :: nat
  type :: string
  source :: jsval
  path :: jsval
  url :: jsval
  matchedDomains :: "string list"
  credentials :: "string list"
  snippet :: string

text \<open>The fields of a \<^verbatim>\<open>Monitor\<close>. The interval is a number of milliseconds, which the
  constructor takes as it is given: it may be negative or a fraction. The axios instance is
  the HTTP capability of the environment below.\<close>

record monitor =
  domains :: "string list"
  interval :: real
  verbose :: bool
  once :: bool
  token :: "string option"
  isRunning :: bool
  lastCheck :: "nat option"
  findings :: "finding list"
  intervalId :: "nat option"

text \<open>\<^verbatim>\<open>github.get(url, {params})\<close>\<close>

datatype request = Get jsval "(string \<times> jsval) list"

text \<open>What the program prints, one constructor for each \<^verbatim>\<open>console\<close> call of the source,
  with the strings that its template literal is filled with.\<close>

datatype line =
    Starting
  | SingleScanCompleted
  | ContinuousMonitoring real
  | PressCtrlC
  | Scanning nat
  | SearchingCode
  | ErrorScanningCode string
  | ScanningGists
  | ErrorScanningGists string
  | Scanned nat nat
  | SearchError string string
  | GistsError string
  | AlertHeader
  | AlertRule
  | AlertType string
  | AlertSource string
  | AlertPath string
  | AlertURL string
  | AlertMatchedDomains string
  | AlertCredentialTypes string
  | AlertSnippet string
  | SummaryHeader
  | SummaryRule
  | TotalFindings nat
  | Details
  | Detail nat string string

datatype printed = Log line | Err line

text \<open>
  Everything outside the monitor that the program changes: the requests it has sent and
  the lines it has printed (oldest first), how often it has read the clock, and the
  interval timers that are armed (handle and period) with the number of timers ever made.
\<close>

record world =
  requests :: "request list"
  console :: "printed list"
  clock_reads :: nat
  timers :: "(nat \<times> nat) list"
  timers_created :: nat

text \<open>
  What the program cannot decide: the outcome of its \<open>n\<close>-th request (a rejection or
  \<^verbatim>\<open>response.data\<close>), the clock, and the two functions of \<^verbatim>\<open>./scanner\<close>, which is not
  among the sources at hand. The scanner functions return arrays of strings or throw.
\<close>

record env =
  http :: "nat \<Rightarrow> request \<Rightarrow> error + jsval"
  clock :: "nat \<Rightarrow> nat"
  scanForDomains :: "jsval \<Rightarrow> string list \<Rightarrow> error + string list"
  detectCredentials :: "jsval \<Rightarrow> error + string list"

type_synonym sys = "monitor \<times> world"

definition this_get :: "(monitor \<Rightarrow> 'a) \<Rightarrow> (sys, 'a) js" where
  "this_get f = (\<lambda>(m, w). (Inr (f m), (m, w)))"

definition this_modify :: "(monitor \<Rightarrow> monitor) \<Rightarrow> (sys, unit) js" where
  "this_modify f = (\<lambda>(m, w). (Inr (), (f m, w)))"

definition github_get :: "env \<Rightarrow> jsval \<Rightarrow> (string \<times> jsval) list \<Rightarrow> (sys, jsval) js" where
  "github_get env u params =
     (\<lambda>(m, w). (http env (length (requests w)) (Get u params),
                 (m, w\<lparr>requests := requests w @ [Get u params]\<rparr>)))"

definition console_log :: "line \<Rightarrow> (sys, unit) js" where
  "console_log l = (\<lambda>(m, w). (Inr (), (m, w\<lparr>console := console w @ [Log l]\<rparr>)))"

definition console_error :: "line \<Rightarrow> (sys, unit) js" where
  "console_error l = (\<lambda>(m, w). (Inr (), (m, w\<lparr>console := console w @ [Err l]\<rparr>)))"

text \<open>\<^verbatim>\<open>new Date()\<close>\<close>

definition new_Date :: "env \<Rightarrow> (sys, nat) js" where
  "new_Date env = (\<lambda>(m, w). (Inr (clock env (clock_reads w)),
                               (m, w\<lparr>clock_reads := Suc (clock_reads w)\<rparr>)))"

text \<open>
  The period that the runtime (Node) gives a timer for the delay it is asked for: a delay
  that is not between 1 and 2147483647 milliseconds (the largest signed 32-bit number)
  becomes 1 millisecond, and the timer counts whole milliseconds.
\<close>

definition timer_delay :: "real \<Rightarrow> nat" where
  "timer_delay ms = (if 1 \<le> ms \<and> ms \<le> 2147483647 then nat \<lfloor>ms\<rfloor> else 1)"

text \<open>\<^verbatim>\<open>setInterval(callback, ms)\<close> arms a timer and returns its handle, which is truthy;
  \<^verbatim>\<open>clearInterval(handle)\<close> disarms it and does nothing for a handle that is not armed.
  The only callback the program ever passes is the one that runs \<^verbatim>\<open>check\<close>.\<close>

definition setInterval :: "real \<Rightarrow> (sys, nat) js" where
  "setInterval ms = (\<lambda>(m, w). (Inr (Suc (timers_created w)),
       (m, w\<lparr>timers := timers w @ [(Suc (timers_created w), timer_delay ms)],
              timers_created := Suc (timers_created w)\<rparr>)))"

definition clearInterval :: "nat \<Rightarrow> (sys, unit) js" where
  "clearInterval h = (\<lambda>(m, w). (Inr (), (m, w\<lparr>timers := filter (\<lambda>t. fst t \<noteq> h) (timers w)\<rparr>)))"

section \<open>The monitor\<close>

text \<open>The constructor: \<^verbatim>\<open>options.interval || 30 * 60 * 1000\<close> and the other defaults.\<close>

record options =
  opt_interval :: "real option"
  opt_verbose :: "bool option"
  opt_once :: "bool option"
  opt_token :: "string option"

definition Monitor :: "string list \<Rightarrow> options \<Rightarrow> monitor" where
  "Monitor ds opts =
     \<lparr>domains = ds,
      interval = (case opt_interval opts of None \<Rightarrow> 30 * 60 * 1000
                  | Some i \<Rightarrow> if i = 0 then 30 * 60 * 1000 else i),
      verbose = (case opt_verbose opts of None \<Rightarrow> False | Some b \<Rightarrow> b),
      once = (case opt_once opts of None \<Rightarrow> False | Some b \<Rightarrow> b),
      token = opt_token opts,
      isRunning = False,
      lastCheck = None,
      findings = [],
      intervalId = None\<rparr>"

subsection \<open>\<^verbatim>\<open>scanCodeSearch\<close>\<close>

text \<open>\<^verbatim>\<open>results.push({type: 'code', repository: item.repository.full_name, path: item.path,
  url: item.html_url, contentUrl: item.url})\<close>\<close>

definition push_code_result :: "jsval \<Rightarrow> (item list \<times> sys, unit) js" where
  "push_code_result item =
     js_bind (js_eval (js_prop item ''repository'')) (\<lambda>repository.
     js_bind (js_eval (js_prop repository ''full_name'')) (\<lambda>full_name.
     js_bind (js_eval (js_prop item ''path'')) (\<lambda>file_path.
     js_bind (js_eval (js_prop item ''html_url'')) (\<lambda>html_url.
     js_bind (js_eval (js_prop item ''url'')) (\<lambda>api_url.
     local_modify (\<lambda>results. results @ [CodeResult full_name file_path html_url api_url]))))))"

text \<open>One query and the loop over \<^verbatim>\<open>response.data.items || []\<close>; the source writes this
  twice, for the two queries of a domain.\<close>

definition search_code :: "env \<Rightarrow> string \<Rightarrow> (item list \<times> sys, unit) js" where
  "search_code env query =
     js_bind (outer (github_get env (JStr ''/search/code'')
                       [(''q'', JStr query), (''per_page'', JNum 30)])) (\<lambda>data.
     js_bind (js_eval (js_prop data ''items'')) (\<lambda>items.
     js_bind (js_eval (iterate (js_or items (JArr [])))) (\<lambda>hits.
     for_of hits push_code_result)))"

text \<open>The \<^verbatim>\<open>try\<close> block for one domain, and its \<^verbatim>\<open>catch\<close>.\<close>

definition search_domain :: "env \<Rightarrow> string \<Rightarrow> (item list \<times> sys, unit) js" where
  "search_domain env domain =
     try_catch
       (js_then (search_code env (domain @ '' password''))
                (search_code env (domain @ '' api_key'')))
       (\<lambda>error. js_bind (outer (this_get verbose)) (\<lambda>v.
                 js_when v (outer (console_error (SearchError domain (message error))))))"

definition scanCodeSearch :: "env \<Rightarrow> (sys, item list) js" where
  "scanCodeSearch env =
     in_frame []
       (js_bind (outer (this_get domains)) (\<lambda>ds.
        js_then (for_of ds (search_domain env))
                local_get))"

subsection \<open>\<^verbatim>\<open>scanGists\<close>\<close>

text \<open>\<^verbatim>\<open>results.push({type: 'gist', id: gist.id, filename: filename, url: gist.html_url,
  content: fileData.content})\<close>, for one entry \<^verbatim>\<open>[filename, fileData]\<close>.\<close>

definition push_gist_file :: "jsval \<Rightarrow> string \<times> jsval \<Rightarrow> (item list \<times> sys, unit) js" where
  "push_gist_file gist =
     (\<lambda>(filename, fileData).
       js_bind (js_eval (js_prop gist ''id'')) (\<lambda>gid.
       js_bind (js_eval (js_prop gist ''html_url'')) (\<lambda>html_url.
       js_bind (js_eval (js_prop fileData ''content'')) (\<lambda>content.
       local_modify (\<lambda>results. results @ [GistResult gid filename html_url content])))))"

text \<open>The loop over \<^verbatim>\<open>Object.entries(gist.files)\<close> for one gist.\<close>

definition push_gist_files :: "jsval \<Rightarrow> (item list \<times> sys, unit) js" where
  "push_gist_files gist =
     js_bind (js_eval (js_prop gist ''files'')) (\<lambda>files.
     js_bind (js_eval (entries files)) (\<lambda>fs.
     for_of fs (push_gist_file gist)))"

definition scanGists :: "env \<Rightarrow> (sys, item list) js" where
  "scanGists env =
     in_frame []
       (js_then
          (try_catch
             (js_bind (outer (github_get env (JStr ''/gists/public'') [(''per_page'', JNum 30)])) (\<lambda>data.
              js_bind (js_eval (iterate data)) (\<lambda>gists.
              for_of gists push_gist_files)))
             (\<lambda>error. js_bind (outer (this_get verbose)) (\<lambda>v.
                       js_when v (outer (console_error (GistsError (message error)))))))
          local_get)"

subsection \<open>\<^verbatim>\<open>analyzeContent\<close>\<close>

text \<open>The first statements of the \<^verbatim>\<open>try\<close> block: \<^verbatim>\<open>content\<close> starts as the empty string, a
  code result with a truthy \<^verbatim>\<open>contentUrl\<close> is fetched, a gist carries its content.\<close>

definition resolveContent :: "env \<Rightarrow> item \<Rightarrow> (sys, jsval) js" where
  "resolveContent env item =
     (if item_type item = ''code'' \<and> truthy (item_contentUrl item) then
        js_bind (github_get env (item_contentUrl item) []) (\<lambda>data.
        js_bind (js_eval (js_prop data ''content'')) (\<lambda>c.
        js_return (js_or c (JStr ''''))))
      else if item_type item = ''gist'' then js_return (js_or (item_content item) (JStr ''''))
      else js_return (JStr ''''))"

text \<open>\<^verbatim>\<open>this.domains.some(d => item.url.includes(d))\<close>: the callback runs on the domains in
  order until one answers true, and a throw in it ends the loop.\<close>

fun some_includes :: "jsval \<Rightarrow> string list \<Rightarrow> error + bool" where
  "some_includes u [] = Inr False"
| "some_includes u (d # ds) =
     (case js_includes u d of
        Inl e \<Rightarrow> Inl e
      | Inr True \<Rightarrow> Inr True
      | Inr False \<Rightarrow> some_includes u ds)"

text \<open>\<^verbatim>\<open>domainMatches.length > 0 || (item.url && this.domains.some(...))\<close>, as the
  condition of the \<^verbatim>\<open>if\<close>.\<close>

definition domain_condition :: "string list \<Rightarrow> jsval \<Rightarrow> string list \<Rightarrow> error + bool" where
  "domain_condition domainMatches u ds =
     (if length domainMatches > 0 then Inr True
      else if truthy u then some_includes u ds
      else Inr False)"

text \<open>The \<^verbatim>\<open>try\<close> block; the local \<^verbatim>\<open>findings\<close> is the frame.\<close>

definition analyzeContent_try :: "env \<Rightarrow> item \<Rightarrow> (finding list \<times> sys, unit) js" where
  "analyzeContent_try env item =
     js_bind (outer (resolveContent env item)) (\<lambda>content.
     js_bind (outer (this_get domains)) (\<lambda>ds.
     js_bind (js_eval (scanForDomains env content ds)) (\<lambda>domainMatches.
     js_bind (js_eval (domain_condition domainMatches (item_url item) ds)) (\<lambda>matched.
     js_when matched
       (js_bind (js_eval (detectCredentials env content)) (\<lambda>creds.
        js_when (length creds > 0)
          (js_bind (outer (new_Date env)) (\<lambda>now.
           js_bind (js_eval (substring0 content 200)) (\<lambda>snip.
           local_modify (\<lambda>found. found @
             [\<lparr>timestamp = now,
               type = item_type item,
               source = js_or (item_repository item) (item_id item),
               path = js_or (item_path item) (item_filename item),
               url = item_url item,
               matchedDomains = domainMatches,
               credentials = creds,
               snippet = snip\<rparr>]))))))))))"

definition analyzeContent :: "env \<Rightarrow> item \<Rightarrow> (sys, finding list) js" where
  "analyzeContent env item =
     in_frame []
       (js_then
          (try_catch (analyzeContent_try env item) (\<lambda>error. js_return ()))
          local_get)"

subsection \<open>\<^verbatim>\<open>alert\<close> and \<^verbatim>\<open>printSummary\<close>\<close>

text \<open>Each \<^verbatim>\<open>console.log\<close> of \<^verbatim>\<open>alert\<close> prints a template literal, which is filled before
  the line is printed: the source, the path and the URL of the finding are whatever the
  platform sent, and turning them into strings may throw.\<close>

definition alert :: "finding list \<Rightarrow> (sys, unit) js" where
  "alert fs =
     for_of fs (\<lambda>finding.
       js_then (console_log AlertHeader)
      (js_then (console_log AlertRule)
      (js_then (console_log (AlertType (type finding)))
      (js_then (js_bind (js_eval (to_string (source finding))) (\<lambda>s. console_log (AlertSource s)))
      (js_then (js_bind (js_eval (to_string (path finding))) (\<lambda>s. console_log (AlertPath s)))
      (js_then (js_bind (js_eval (to_string (url finding))) (\<lambda>s. console_log (AlertURL s)))
      (js_then (console_log (AlertMatchedDomains (join '', '' (matchedDomains finding))))
      (js_then (console_log (AlertCredentialTypes (join '', '' (credentials finding))))
      (js_then (console_log (AlertSnippet (snippet finding)))
               (console_log AlertRule))))))))))"

definition printSummary :: "(sys, unit) js" where
  "printSummary =
     js_then (console_log SummaryHeader)
    (js_then (console_log SummaryRule)
    (js_bind (this_get findings) (\<lambda>fs.
     js_then (console_log (TotalFindings (length fs)))
             (js_when (length fs > 0)
                (js_then (console_log Details)
                         (for_of fs (\<lambda>finding.
                            js_bind (js_eval (to_string (source finding))) (\<lambda>s.
                            console_log (Detail (timestamp finding) (type finding) s)))))))))"

subsection \<open>\<^verbatim>\<open>check\<close>\<close>

record tally =
  totalScanned :: nat
  threatsFound :: nat

text \<open>The loop over the results of a connector; the source writes it twice.\<close>

definition analyze_results :: "env \<Rightarrow> item list \<Rightarrow> (tally \<times> sys, unit) js" where
  "analyze_results env results =
     for_of results (\<lambda>result.
       js_bind (outer (analyzeContent env result)) (\<lambda>found.
       js_when (length found > 0)
         (js_then (local_modify (\<lambda>t. t\<lparr>threatsFound := threatsFound t + length found\<rparr>))
         (js_then (outer (this_modify (\<lambda>m. m\<lparr>findings := findings m @ found\<rparr>)))
                  (outer (alert found))))))"

text \<open>
  One of the two \<^verbatim>\<open>try\<close>/\<^verbatim>\<open>catch\<close> statements of \<^verbatim>\<open>check\<close>. The source writes the
  statement twice; the two copies differ in the connector they call, in the line they
  print when verbose and in the line of the \<^verbatim>\<open>catch\<close>, which are the arguments here.
\<close>

definition scan_phase ::
  "(sys, item list) js \<Rightarrow> line \<Rightarrow> (string \<Rightarrow> line) \<Rightarrow> env \<Rightarrow> (tally \<times> sys, unit) js" where
  "scan_phase connector announce failed env =
     try_catch
       (js_then (js_bind (outer (this_get verbose)) (\<lambda>v.
                   js_when v (outer (console_log announce))))
       (js_bind (outer connector) (\<lambda>results.
        js_then (local_modify (\<lambda>t. t\<lparr>totalScanned := totalScanned t + length results\<rparr>))
                (analyze_results env results))))
       (\<lambda>error. outer (console_error (failed (message error))))"

text \<open>
  The body of \<^verbatim>\<open>check\<close>, with the two connectors it calls as arguments, so that a
  connector that throws can be put in their place.
\<close>

definition check_with :: "(sys, item list) js \<Rightarrow> (sys, item list) js \<Rightarrow> env \<Rightarrow> (sys, unit) js" where
  "check_with codeSearch gists env =
     in_frame \<lparr>totalScanned = 0, threatsFound = 0\<rparr>
       (js_bind (outer (new_Date env)) (\<lambda>now.
        js_then (outer (this_modify (\<lambda>m. m\<lparr>lastCheck := Some now\<rparr>)))
       (js_then (outer (console_log (Scanning now)))
       (js_then (scan_phase codeSearch SearchingCode ErrorScanningCode env)
       (js_then (scan_phase gists ScanningGists ErrorScanningGists env)
       (js_bind local_get (\<lambda>t.
        outer (console_log (Scanned (totalScanned t) (threatsFound t))))))))))"

definition check :: "env \<Rightarrow> (sys, unit) js" where
  "check env = check_with (scanCodeSearch env) (scanGists env) env"

subsection \<open>\<^verbatim>\<open>start\<close>, \<^verbatim>\<open>stop\<close> and the timer\<close>

text \<open>
  \<^verbatim>\<open>start\<close> is suspended at \<^verbatim>\<open>await this.check()\<close>, and other callbacks of the program may
  run before it goes on. So it is two statements: what it does until the scan it awaits
  has ended, and what it does when it is resumed. \<open>start\<close> is the two in a row, with
  nothing in between; \<open>start_interrupted\<close> has a callback run in between.
\<close>

definition start_until_await :: "env \<Rightarrow> (sys, unit) js" where
  "start_until_await env =
     js_then (this_modify (\<lambda>m. m\<lparr>isRunning := True\<rparr>))
    (js_then (console_log Starting)
             (check env))"

definition start_resumed :: "(sys, unit) js" where
  "start_resumed =
     js_bind (this_get once) (\<lambda>single.
     if single then
       js_then (console_log SingleScanCompleted) printSummary
     else
       js_bind (this_get interval) (\<lambda>ms.
       js_then (console_log (ContinuousMonitoring ms))
      (js_then (console_log PressCtrlC)
      (js_bind (setInterval ms) (\<lambda>h.
       this_modify (\<lambda>m. m\<lparr>intervalId := Some h\<rparr>))))))"


definition start_interrupted :: "env \<Rightarrow> (sys, unit) js \<Rightarrow> (sys, unit) js" where
  "start_interrupted env callback =
     js_then (start_until_await env) (js_then callback start_resumed)"

definition stop :: "(sys, unit) js" where
  "stop =
     js_then (this_modify (\<lambda>m. m\<lparr>isRunning := False\<rparr>))
    (js_bind (this_get intervalId) (\<lambda>h.
     case h of Some handle \<Rightarrow> clearInterval handle | None \<Rightarrow> js_return ()))"


section \<open>Notions used in the statements\<close>

subsection \<open>What a statement leaves alone\<close>

text \<open>\<open>keeps R c\<close>: whatever \<open>c\<close> does, and whether it completes or throws, the state it
  reaches is related by \<open>R\<close> to the state it started in.\<close>

definition keeps :: "('s \<Rightarrow> 's \<Rightarrow> bool) \<Rightarrow> ('s, 'a) js \<Rightarrow> bool" where
  "keeps R c = (\<forall>s. R s (snd (c s)))"

definition framed :: "('g \<Rightarrow> 'g \<Rightarrow> bool) \<Rightarrow> 'l \<times> 'g \<Rightarrow> 'l \<times> 'g \<Rightarrow> bool" where
  "framed R = (\<lambda>(l, g) (l', g'). R g g')"

text \<open>The number of scans begun so far, read off the console.\<close>

fun is_scanning :: "printed \<Rightarrow> bool" where
  "is_scanning (Log (Scanning t)) = True"
| "is_scanning p = False"

definition scans_started :: "world \<Rightarrow> nat" where
  "scans_started w = length (filter is_scanning (console w))"

text \<open>The monitor is untouched, no timer is armed or cancelled, no scan is begun.\<close>

definition read_only :: "sys \<Rightarrow> sys \<Rightarrow> bool" where
  "read_only = (\<lambda>(m, w) (m', w'). m' = m \<and> timers w' = timers w
      \<and> timers_created w' = timers_created w \<and> scans_started w' = scans_started w)"

text \<open>The same, except that findings may have been added to the monitor.\<close>

definition collecting :: "sys \<Rightarrow> sys \<Rightarrow> bool" where
  "collecting = (\<lambda>(m, w) (m', w'). m' = m\<lparr>findings := findings m'\<rparr> \<and> timers w' = timers w
      \<and> timers_created w' = timers_created w \<and> scans_started w' = scans_started w)"


subsection \<open>The scanner module\<close>

text \<open>
  Modelled from the spec: \<^verbatim>\<open>scanForDomains\<close> of \<^verbatim>\<open>./scanner\<close>, which is not among the
  sources. It returns the watched domains that occur as a substring of the content, in
  the order of the watched list. What it does with a content that is not a string is not
  specified; it throws here.
\<close>

definition spec_scanForDomains :: "jsval \<Rightarrow> string list \<Rightarrow> error + string list" where
  "spec_scanForDomains content ds =
     (case content of
        JStr c \<Rightarrow> Inr (filter (\<lambda>d. sublist d c) ds)
      | _ \<Rightarrow> Inl (TypeError ''content is not a string''))"

text \<open>
  Modelled from the spec: \<^verbatim>\<open>detectCredentials\<close> of \<^verbatim>\<open>./scanner\<close>, which is not among the
  sources. It returns the distinct labels of the credential signatures that match
  somewhere in the content. The signatures themselves are not specified: they are an
  argument, a label with the text that gives the credential away.
\<close>

definition spec_detectCredentials :: "(string \<times> string) list \<Rightarrow> jsval \<Rightarrow> error + string list" where
  "spec_detectCredentials signatures content =
     (case content of
        JStr c \<Rightarrow> Inr (remdups (map fst (filter (\<lambda>sg. sublist (snd sg) c) signatures)))
      | _ \<Rightarrow> Inl (TypeError ''content is not a string''))"

subsection \<open>A concrete setting\<close>

definition example_signatures :: "(string \<times> string) list" where
  "example_signatures = [(''Password Assignment'', ''password=''), (''API Key'', ''api_key='')]"

text \<open>A network on which every request is rejected.\<close>

definition offline :: "nat \<Rightarrow> request \<Rightarrow> error + jsval" where
  "offline n r = Inl (Rejected ''Network Error'')"

definition example_env :: "(nat \<Rightarrow> request \<Rightarrow> error + jsval) \<Rightarrow> env" where
  "example_env net =
     \<lparr>http = net,
      clock = (\<lambda>n. 1000 + n),
      scanForDomains = spec_scanForDomains,
      detectCredentials = spec_detectCredentials example_signatures\<rparr>"

definition fresh_world :: world where
  "fresh_world = \<lparr>requests = [], console = [], clock_reads = 0, timers = [], timers_created = 0\<rparr>"

definition no_options :: options where
  "no_options = \<lparr>opt_interval = None, opt_verbose = None, opt_once = None, opt_token = None\<rparr>"

definition acme_monitor :: monitor where
  "acme_monitor = Monitor [''acme.com''] no_options"

text \<open>A gist file whose URL names the watched domain and whose body does not.\<close>

definition url_only_gist :: item where
  "url_only_gist = GistResult (JStr ''g1'') ''notes.txt''
     (JStr ''https://github.com/foo/acme.com-configs'') (JStr ''password=hunter2'')"

text \<open>A gist file that mentions the watched domain and holds no credential.\<close>

definition harmless_gist :: item where
  "harmless_gist = GistResult (JStr ''g2'') ''readme.md''
     (JStr ''https://gist.github.com/g2'') (JStr ''visit acme.com for info'')"

text \<open>A search hit, whose content has to be fetched, and a gist file whose content is a
  number.\<close>

definition code_hit :: item where
  "code_hit = CodeResult (JStr ''foo/bar'') (JStr ''config.yml'')
     (JStr ''https://github.com/foo/bar/blob/main/config.yml'')
     (JStr ''https://api.github.com/repos/foo/bar/contents/config.yml'')"

definition numeric_gist :: item where
  "numeric_gist = GistResult (JStr ''g3'') ''data.json'' (JStr ''https://gist.github.com/g3'') (JNum 5)"

text \<open>A setting whose credential detector throws.\<close>

definition broken_detector_env :: env where
  "broken_detector_env =
     \<lparr>http = offline,
      clock = (\<lambda>n. 1000 + n),
      scanForDomains = spec_scanForDomains,
      detectCredentials = (\<lambda>content. Inl (Rejected ''detector failed''))\<rparr>"

subsection \<open>What the connectors are to produce\<close>

text \<open>The request of one code search: the query and a page size of 30.\<close>

definition search_query :: "string \<Rightarrow> request" where
  "search_query q = Get (JStr ''/search/code'') [(''q'', JStr q), (''per_page'', JNum 30)]"

definition gists_query :: request where
  "gists_query = Get (JStr ''/gists/public'') [(''per_page'', JNum 30)]"

text \<open>A field of a value that is known to have fields.\<close>

definition field :: "jsval \<Rightarrow> string \<Rightarrow> jsval" where
  "field v name = (case js_prop v name of Inr x \<Rightarrow> x | Inl e \<Rightarrow> JUndefined)"

text \<open>The code result of one search hit; a hit without a repository has none.\<close>

definition code_result :: "jsval \<Rightarrow> error + item" where
  "code_result hit =
     (case js_prop hit ''repository'' of
        Inl e \<Rightarrow> Inl e
      | Inr repository \<Rightarrow>
          (case js_prop repository ''full_name'' of
             Inl e \<Rightarrow> Inl e
           | Inr full_name \<Rightarrow>
               Inr (CodeResult full_name (field hit ''path'') (field hit ''html_url'') (field hit ''url''))))"

text \<open>The hits of a result set as code results, up to the first hit that has none, and
  whether all of them were taken.\<close>

fun flatten_hits :: "jsval list \<Rightarrow> item list \<times> bool" where
  "flatten_hits [] = ([], True)"
| "flatten_hits (hit # hits) =
     (case code_result hit of
        Inl e \<Rightarrow> ([], False)
      | Inr r \<Rightarrow> (r # fst (flatten_hits hits), snd (flatten_hits hits)))"

text \<open>What one query contributes, from its outcome: the code results, and whether the
  query and the flattening went through without an error.\<close>

definition hits_of :: "error + jsval \<Rightarrow> item list \<times> bool" where
  "hits_of outcome =
     (case outcome of
        Inl e \<Rightarrow> ([], False)
      | Inr data \<Rightarrow>
          (case js_prop data ''items'' of
             Inl e \<Rightarrow> ([], False)
           | Inr items \<Rightarrow>
               (case iterate (js_or items (JArr [])) of
                  Inl e \<Rightarrow> ([], False)
                | Inr hits \<Rightarrow> flatten_hits hits)))"

text \<open>
  The requests and the results of the code search over a list of domains, when the next
  request is the \<open>n\<close>-th: for each domain the password query, and the API key query if
  the password query went through.
\<close>

fun expected_search :: "env \<Rightarrow> string list \<Rightarrow> nat \<Rightarrow> request list \<times> item list" where
  "expected_search env [] n = ([], [])"
| "expected_search env (d # ds) n =
     (if snd (hits_of (http env n (search_query (d @ '' password'')))) then
        (search_query (d @ '' password'') # search_query (d @ '' api_key'')
           # fst (expected_search env ds (n + 2)),
         fst (hits_of (http env n (search_query (d @ '' password''))))
           @ fst (hits_of (http env (Suc n) (search_query (d @ '' api_key''))))
           @ snd (expected_search env ds (n + 2)))
      else
        (search_query (d @ '' password'') # fst (expected_search env ds (Suc n)),
         fst (hits_of (http env n (search_query (d @ '' password''))))
           @ snd (expected_search env ds (Suc n))))"

text \<open>The files of a gist, and the gist results they are to give: one for each file, with
  the content of the file.\<close>

definition gist_files :: "jsval \<Rightarrow> (string \<times> jsval) list" where
  "gist_files gist = (case js_prop gist ''files'' of Inr (JObj fs) \<Rightarrow> fs | _ \<Rightarrow> [])"

definition gist_file_items :: "jsval \<Rightarrow> item list" where
  "gist_file_items gist =
     map (\<lambda>(filename, fileData).
            GistResult (field gist ''id'') filename (field gist ''html_url'') (field fileData ''content''))
         (gist_files gist)"

text \<open>A gist as the platform sends it: an object whose \<^verbatim>\<open>files\<close> is an object of file
  descriptions, none of them \<^verbatim>\<open>null\<close>.\<close>

definition well_formed_gist :: "jsval \<Rightarrow> bool" where
  "well_formed_gist gist =
     (case js_prop gist ''files'' of
        Inr (JObj fs) \<Rightarrow> list_all (\<lambda>(filename, fileData). fileData \<noteq> JNull \<and> fileData \<noteq> JUndefined) fs
      | _ \<Rightarrow> False)"

text \<open>Two gists, with two files and one file, and the page that lists them.\<close>

definition two_gists :: "jsval list" where
  "two_gists =
     [JObj [(''id'', JStr ''g1''), (''html_url'', JStr ''https://gist.github.com/g1''),
            (''files'', JObj [(''a.txt'', JObj [(''content'', JStr ''password=hunter2 acme.com'')]),
                              (''b.txt'', JObj [(''content'', JStr ''nothing here'')])])],
      JObj [(''id'', JStr ''g2''), (''html_url'', JStr ''https://gist.github.com/g2''),
            (''files'', JObj [(''c.txt'', JObj [(''content'', JStr ''api_key=abc for acme.com'')])])]]"

text \<open>A network that rejects every code search and lists the two gists.\<close>

definition gists_only :: "nat \<Rightarrow> request \<Rightarrow> error + jsval" where
  "gists_only n r = (if r = gists_query then Inr (JArr two_gists) else Inl (Rejected ''rate limited''))"

text \<open>A network on which every code search finds the same one hit.\<close>

definition one_hit :: "nat \<Rightarrow> request \<Rightarrow> error + jsval" where
  "one_hit n r =
     Inr (JObj [(''total_count'', JNum 1),
                (''items'', JArr [JObj
                   [(''path'', JStr ''config.yml''),
                    (''repository'', JObj [(''full_name'', JStr ''foo/bar'')]),
                    (''html_url'', JStr ''https://github.com/foo/bar/blob/main/config.yml''),
                    (''url'', JStr ''https://api.github.com/repos/foo/bar/contents/config.yml'')]])])"

subsection \<open>What a scan is to report\<close>




text \<open>The world after the line that a verbose monitor prints before it calls a connector.\<close>

definition announced :: "monitor \<Rightarrow> line \<Rightarrow> world \<Rightarrow> world" where
  "announced m l w = (if verbose m then w\<lparr>console := console w @ [Log l]\<rparr> else w)"










subsection \<open>The schedule\<close>


text \<open>What \<^verbatim>\<open>stop\<close> does to the state; and a statement that is indifferent to a change \<open>f\<close>
  of the state: it does the same, with the same outcome, whether \<open>f\<close> is made before it
  or after it; \<open>in_frame_of\<close> is \<open>f\<close> for a method with local variables.\<close>

definition stopped :: "sys \<Rightarrow> sys" where
  "stopped = (\<lambda>(m, w).
     (m\<lparr>isRunning := False\<rparr>,
      (case intervalId m of
         None \<Rightarrow> w
       | Some h \<Rightarrow> w\<lparr>timers := filter (\<lambda>t. fst t \<noteq> h) (timers w)\<rparr>)))"

definition commutes :: "('s \<Rightarrow> 's) \<Rightarrow> ('s, 'a) js \<Rightarrow> bool" where
  "commutes f c = (\<forall>s. c (f s) = (case c s of (r, s') \<Rightarrow> (r, f s')))"

definition in_frame_of :: "('g \<Rightarrow> 'g) \<Rightarrow> 'l \<times> 'g \<Rightarrow> 'l \<times> 'g" where
  "in_frame_of f = (\<lambda>(l, g). (l, f g))"




definition running_monitor :: monitor where
  "running_monitor = acme_monitor\<lparr>isRunning := True, intervalId := Some 1\<rparr>"

definition running_world :: world where
  "running_world = fresh_world\<lparr>timers := [(1, 1800000)], timers_created := 1\<rparr>"









section \<open>Reasoning about statements\<close>

lemmas js_defs = js_return_def js_throw_def js_bind_def js_then_def try_catch_def js_when_def
  js_eval_def in_frame_def outer_def local_get_def local_modify_def this_get_def this_modify_def

lemma js_then_return: "js_then (js_return ()) c = c"
  by (simp add: js_defs)

lemma js_then_assoc: "js_then (js_then a b) c = js_then a (js_then b c)"
  by (auto simp: js_defs fun_eq_iff split: sum.splits prod.splits)

lemma for_of_append: "for_of (xs @ ys) body = js_then (for_of xs body) (for_of ys body)"
  by (induction xs) (simp_all add: js_then_return js_then_assoc)

lemma reflp_framed: "reflp R \<Longrightarrow> reflp (framed R)"
  by (auto simp: reflp_def framed_def)

lemma transp_framed: "transp R \<Longrightarrow> transp (framed R)"
  by (auto simp: transp_def framed_def)

lemma keeps_return: "reflp R \<Longrightarrow> keeps R (js_return x)"
  by (simp add: keeps_def js_return_def reflp_def)

lemma keeps_throw: "reflp R \<Longrightarrow> keeps R (js_throw e)"
  by (simp add: keeps_def js_throw_def reflp_def)

lemma keeps_eval: "reflp R \<Longrightarrow> keeps R (js_eval r)"
  by (simp add: keeps_def js_eval_def reflp_def)

lemma keeps_bind:
  assumes "transp R" "keeps R c" "\<And>x. keeps R (f x)"
  shows "keeps R (js_bind c f)"
  unfolding keeps_def
proof
  fix s
  obtain r s1 where c: "c s = (r, s1)" by (cases "c s")
  with assms(2) have 1: "R s s1" by (metis keeps_def snd_conv)
  show "R s (snd (js_bind c f s))"
  proof (cases r)
    case (Inl e)
    with c 1 show ?thesis by (simp add: js_bind_def)
  next
    case (Inr x)
    from assms(3) have "R s1 (snd (f x s1))" by (simp add: keeps_def)
    with 1 assms(1) have "R s (snd (f x s1))" by (meson transpD)
    with c Inr show ?thesis by (simp add: js_bind_def)
  qed
qed

lemma keeps_then: "transp R \<Longrightarrow> keeps R c \<Longrightarrow> keeps R d \<Longrightarrow> keeps R (js_then c d)"
  by (simp add: js_then_def keeps_bind)

lemma keeps_try_catch:
  assumes "transp R" "keeps R c" "\<And>e. keeps R (handler e)"
  shows "keeps R (try_catch c handler)"
  unfolding keeps_def
proof
  fix s
  obtain r s1 where c: "c s = (r, s1)" by (cases "c s")
  with assms(2) have 1: "R s s1" by (metis keeps_def snd_conv)
  show "R s (snd (try_catch c handler s))"
  proof (cases r)
    case (Inr x)
    with c 1 show ?thesis by (simp add: try_catch_def)
  next
    case (Inl e)
    from assms(3) have "R s1 (snd (handler e s1))" by (simp add: keeps_def)
    with 1 assms(1) have "R s (snd (handler e s1))" by (meson transpD)
    with c Inl show ?thesis by (simp add: try_catch_def)
  qed
qed

lemma keeps_when: "reflp R \<Longrightarrow> keeps R c \<Longrightarrow> keeps R (js_when b c)"
  by (simp add: js_when_def keeps_return)

lemma keeps_for_of:
  assumes "reflp R" "transp R" "\<And>x. x \<in> set xs \<Longrightarrow> keeps R (body x)"
  shows "keeps R (for_of xs body)"
  using assms(3) by (induction xs) (simp_all add: assms(1,2) keeps_return keeps_then)

lemma keeps_outer: "keeps R c \<Longrightarrow> keeps (framed R) (outer c)"
  by (auto simp: keeps_def framed_def outer_def split: prod.splits) (metis snd_conv)

lemma keeps_local_get: "reflp R \<Longrightarrow> keeps (framed R) local_get"
  by (auto simp: keeps_def framed_def local_get_def reflp_def)

lemma keeps_local_modify: "reflp R \<Longrightarrow> keeps (framed R) (local_modify f)"
  by (auto simp: keeps_def framed_def local_modify_def reflp_def)

lemma keeps_in_frame: "keeps (framed R) c \<Longrightarrow> keeps R (in_frame l0 c)"
  by (auto simp: keeps_def framed_def in_frame_def split: prod.splits) (metis snd_conv)

lemma keepsD: "keeps R c \<Longrightarrow> c s = (r, s') \<Longrightarrow> R s s'"
  by (metis keeps_def snd_conv)

lemmas keeps_intros = keeps_return keeps_throw keeps_eval keeps_bind keeps_then keeps_try_catch
  keeps_when keeps_for_of keeps_outer keeps_local_get keeps_local_modify keeps_in_frame
  reflp_framed transp_framed

lemma reflp_read_only: "reflp read_only"
  by (auto simp: reflp_def read_only_def)

lemma transp_read_only: "transp read_only"
  by (auto simp: transp_def read_only_def)

lemma reflp_collecting: "reflp collecting"
  by (auto simp: reflp_def collecting_def)

lemma findings_only_trans:
  "m1 = m0\<lparr>findings := findings m1\<rparr> \<Longrightarrow> m2 = m1\<lparr>findings := findings m2\<rparr>
     \<Longrightarrow> m2 = m0\<lparr>findings := findings m2\<rparr>"
  by (cases m0, cases m1, cases m2) simp

lemma transp_collecting: "transp collecting"
proof (rule transpI)
  fix s1 s2 s3 :: sys
  assume a: "collecting s1 s2" and b: "collecting s2 s3"
  obtain m1 w1 m2 w2 m3 w3 where s: "s1 = (m1, w1)" "s2 = (m2, w2)" "s3 = (m3, w3)"
    by (cases s1, cases s2, cases s3) blast
  from a b have "m2 = m1\<lparr>findings := findings m2\<rparr>" "m3 = m2\<lparr>findings := findings m3\<rparr>"
    by (simp_all add: s collecting_def)
  then have "m3 = m1\<lparr>findings := findings m3\<rparr>" by (rule findings_only_trans)
  with a b show "collecting s1 s3" by (simp add: s collecting_def)
qed

lemma read_only_collecting: "keeps read_only c \<Longrightarrow> keeps collecting c"
  unfolding keeps_def read_only_def collecting_def
  by (force split: prod.splits)

lemma keeps_this_get: "reflp R \<Longrightarrow> keeps R (this_get f)"
  by (auto simp: keeps_def this_get_def reflp_def)

lemma keeps_github_get: "keeps read_only (github_get env u params)"
  by (simp add: keeps_def github_get_def read_only_def scans_started_def split: prod.splits)

lemma keeps_console_log: "\<not> is_scanning (Log l) \<Longrightarrow> keeps read_only (console_log l)"
  by (simp add: keeps_def console_log_def read_only_def scans_started_def split: prod.splits)

lemma keeps_console_error: "keeps read_only (console_error l)"
  by (simp add: keeps_def console_error_def read_only_def scans_started_def split: prod.splits)

lemma keeps_new_Date: "keeps read_only (new_Date env)"
  by (simp add: keeps_def new_Date_def read_only_def scans_started_def split: prod.splits)

lemmas read_only_intros = keeps_intros reflp_read_only transp_read_only keeps_this_get
  keeps_github_get keeps_console_log keeps_console_error keeps_new_Date

lemma keeps_scanCodeSearch: "keeps read_only (scanCodeSearch env)"
  unfolding scanCodeSearch_def search_domain_def search_code_def push_code_result_def
  by (intro read_only_intros)

lemma keeps_scanGists: "keeps read_only (scanGists env)"
  unfolding scanGists_def push_gist_files_def push_gist_file_def split_def
  by (intro read_only_intros)

lemma keeps_resolveContent: "keeps read_only (resolveContent env item)"
  unfolding resolveContent_def
  by (auto intro!: read_only_intros)

lemma keeps_analyzeContent: "keeps read_only (analyzeContent env item)"
  unfolding analyzeContent_def analyzeContent_try_def
  by (intro read_only_intros keeps_resolveContent)

lemma keeps_alert: "keeps read_only (alert fs)"
  unfolding alert_def
  by (intro read_only_intros) auto

section \<open>The analysis pipeline\<close>

lemma some_includes_JStr: "some_includes (JStr u) ds = Inr (\<exists>d\<in>set ds. sublist d u)"
  by (induction ds) (auto split: bool.splits)

lemma some_includes_True:
  "some_includes u ds = Inr True \<Longrightarrow> \<exists>d\<in>set ds. js_includes u d = Inr True"
  by (induction ds) (auto split: bool.splits sum.splits)

lemma domain_condition_JStr:
  "u \<noteq> [] \<Longrightarrow> domain_condition dm (JStr u) ds = Inr (dm \<noteq> [] \<or> (\<exists>d\<in>set ds. sublist d u))"
  by (simp add: domain_condition_def some_includes_JStr)

lemma domain_condition_True:
  "domain_condition dm u ds = Inr True \<Longrightarrow> dm \<noteq> [] \<or> (\<exists>d\<in>set ds. js_includes u d = Inr True)"
  by (auto simp: domain_condition_def split: if_splits dest: some_includes_True)

lemma resolveContent_this: "resolveContent env item (m, w) = (r, (m', w')) \<Longrightarrow> m' = m"
  by (auto simp: resolveContent_def js_defs github_get_def split: if_splits sum.splits prod.splits)

lemma resolveContent_pair:
  "fst (resolveContent env item (m, w)) = r \<Longrightarrow> \<exists>w1. resolveContent env item (m, w) = (r, (m, w1))"
  by (cases "resolveContent env item (m, w)") (auto dest: resolveContent_this)

text \<open>What the try block can do to the local findings: nothing, or push one finding.\<close>

lemma analyzeContent_try_cases:
  assumes "analyzeContent_try env item (l, (m, w)) = (r, (l', (m', w')))"
  shows "m' = m \<and> ((\<exists>e. r = Inl e \<and> l' = l) \<or> (r = Inr () \<and> (l' = l \<or>
           (\<exists>f content. l' = l @ [f] \<and> credentials f \<noteq> []
               \<and> fst (resolveContent env item (m, w)) = Inr content
               \<and> scanForDomains env content (domains m) = Inr (matchedDomains f)
               \<and> detectCredentials env content = Inr (credentials f)
               \<and> substring0 content 200 = Inr (snippet f)
               \<and> domain_condition (matchedDomains f) (item_url item) (domains m) = Inr True
               \<and> url f = item_url item \<and> type f = item_type item
               \<and> source f = js_or (item_repository item) (item_id item)
               \<and> path f = js_or (item_path item) (item_filename item)))))"
  using assms
  by (auto simp: analyzeContent_try_def js_defs new_Date_def
           split: if_splits sum.splits prod.splits dest: resolveContent_this)

lemma analyzeContent_total:
  "\<exists>fs w'. analyzeContent env item (m, w) = (Inr fs, (m, w')) \<and> length fs \<le> 1"
proof -
  obtain r l' m' w' where run: "analyzeContent_try env item ([], (m, w)) = (r, (l', (m', w')))"
    by (metis prod.exhaust)
  from analyzeContent_try_cases [OF run] show ?thesis
    by (auto simp: analyzeContent_def js_defs run)
qed

lemma analyzeContent_caught:
  assumes "analyzeContent_try env item ([], s) = (Inl e, (l, s'))"
  shows "analyzeContent env item s = (Inr [], s')"
proof -
  obtain m w where s: "s = (m, w)" by (cases s)
  obtain m' w' where s': "s' = (m', w')" by (cases s')
  from analyzeContent_try_cases [OF assms [unfolded s s']] have "l = []" by auto
  with assms show ?thesis
    by (simp add: analyzeContent_def js_defs)
qed

lemma analyzeContent_hit:
  assumes "resolveContent env item (m, w) = (Inr content, (m, w1))"
      and "scanForDomains env content (domains m) = Inr dm"
      and "domain_condition dm (item_url item) (domains m) = Inr True"
      and "detectCredentials env content = Inr cr" "cr \<noteq> []"
      and "substring0 content 200 = Inr snip"
  shows "analyzeContent env item (m, w) =
           (Inr [\<lparr>timestamp = clock env (clock_reads w1),
                  type = item_type item,
                  source = js_or (item_repository item) (item_id item),
                  path = js_or (item_path item) (item_filename item),
                  url = item_url item,
                  matchedDomains = dm,
                  credentials = cr,
                  snippet = snip\<rparr>],
            (m, w1\<lparr>clock_reads := Suc (clock_reads w1)\<rparr>))"
  using assms
  by (simp add: analyzeContent_def analyzeContent_try_def js_defs new_Date_def)

lemma analyzeContent_miss:
  assumes "resolveContent env item (m, w) = (Inr content, (m, w1))"
      and "scanForDomains env content (domains m) = Inr dm"
      and "domain_condition dm (item_url item) (domains m) = Inr False
           \<or> detectCredentials env content = Inr []"
  shows "analyzeContent env item (m, w) = (Inr [], (m, w1))"
  using assms
  by (auto simp: analyzeContent_def analyzeContent_try_def js_defs new_Date_def split: sum.splits)

lemma analyzeContent_resolve_fails:
  assumes "fst (resolveContent env item (m, w)) = Inl e"
  shows "fst (analyzeContent env item (m, w)) = Inr []"
proof -
  from resolveContent_pair [OF assms] obtain w1
    where "resolveContent env item (m, w) = (Inl e, (m, w1))" by blast
  then show ?thesis
    by (simp add: analyzeContent_def analyzeContent_try_def js_defs)
qed

lemma analyzeContent_detector_fails:
  assumes "fst (resolveContent env item (m, w)) = Inr content"
      and "scanForDomains env content (domains m) = Inl e
           \<or> detectCredentials env content = Inl e"
  shows "fst (analyzeContent env item (m, w)) = Inr []"
proof -
  from resolveContent_pair [OF assms(1)] obtain w1
    where "resolveContent env item (m, w) = (Inr content, (m, w1))" by blast
  with assms(2) show ?thesis
    by (auto simp: analyzeContent_def analyzeContent_try_def js_defs split: sum.splits)
qed

lemma analyze_results_skip:
  assumes "analyzeContent env item (m, w) = (Inr [], s')"
  shows "analyze_results env (item # rest) (t, (m, w)) = analyze_results env rest (t, s')"
  using assms by (simp add: analyze_results_def js_defs)

subsection \<open>Facts about the concrete setting\<close>

lemma acme_domains: "domains acme_monitor = [''acme.com'']"
  by (simp add: acme_monitor_def Monitor_def)

lemma resolve_url_only_gist:
  "resolveContent env url_only_gist (m, w) = (Inr (JStr ''password=hunter2''), (m, w))"
  by (simp add: resolveContent_def url_only_gist_def js_defs js_or_def)

lemma resolve_harmless_gist:
  "resolveContent env harmless_gist (m, w) = (Inr (JStr ''visit acme.com for info''), (m, w))"
  by (simp add: resolveContent_def harmless_gist_def js_defs js_or_def)

lemma resolve_numeric_gist:
  "resolveContent env numeric_gist (m, w) = (Inr (JNum 5), (m, w))"
  by (simp add: resolveContent_def numeric_gist_def js_defs js_or_def)

lemma no_acme_in_password: "\<not> sublist ''acme.com'' ''password=hunter2''"
  by code_simp

lemma acme_in_url: "sublist ''acme.com'' ''https://github.com/foo/acme.com-configs''"
  by code_simp

lemma acme_in_visit: "sublist ''acme.com'' ''visit acme.com for info''"
  by code_simp

lemma scan_password: "scanForDomains (example_env net) (JStr ''password=hunter2'') [''acme.com''] = Inr []"
  by (simp add: example_env_def spec_scanForDomains_def no_acme_in_password)

lemma scan_visit:
  "scanForDomains (example_env net) (JStr ''visit acme.com for info'') [''acme.com''] = Inr [''acme.com'']"
  by (simp add: example_env_def spec_scanForDomains_def acme_in_visit)

lemma detect_password_spec:
  "spec_detectCredentials example_signatures (JStr ''password=hunter2'') = Inr [''Password Assignment'']"
  by code_simp

lemma detect_visit_spec:
  "spec_detectCredentials example_signatures (JStr ''visit acme.com for info'') = Inr []"
  by code_simp

lemma detect_password:
  "detectCredentials (example_env net) (JStr ''password=hunter2'') = Inr [''Password Assignment'']"
  by (simp add: example_env_def detect_password_spec)

lemma detect_visit:
  "detectCredentials (example_env net) (JStr ''visit acme.com for info'') = Inr []"
  by (simp add: example_env_def detect_visit_spec)

lemma url_only_gist_url: "item_url url_only_gist = JStr ''https://github.com/foo/acme.com-configs''"
  by (simp add: url_only_gist_def)

lemma harmless_gist_url: "item_url harmless_gist = JStr ''https://gist.github.com/g2''"
  by (simp add: harmless_gist_def)

lemma analyze_url_only_gist:
  "analyzeContent (example_env net) url_only_gist (acme_monitor, w) =
     (Inr [\<lparr>timestamp = 1000 + clock_reads w, type = ''gist'', source = JStr ''g1'',
            path = JStr ''notes.txt'', url = JStr ''https://github.com/foo/acme.com-configs'',
            matchedDomains = [], credentials = [''Password Assignment''],
            snippet = ''password=hunter2''\<rparr>],
      (acme_monitor, w\<lparr>clock_reads := Suc (clock_reads w)\<rparr>))"
proof -
  have c: "domain_condition [] (item_url url_only_gist) (domains acme_monitor) = Inr True"
    by (simp add: url_only_gist_url acme_domains domain_condition_JStr acme_in_url)
  have s: "substring0 (JStr ''password=hunter2'') 200 = Inr ''password=hunter2''"
    by simp
  have d: "scanForDomains (example_env net) (JStr ''password=hunter2'') (domains acme_monitor) = Inr []"
    by (simp add: acme_domains scan_password)
  have "[''Password Assignment''] \<noteq> []" by simp
  from analyzeContent_hit [OF resolve_url_only_gist d c detect_password this s]
  show ?thesis
    by (simp add: url_only_gist_def js_or_def example_env_def)
qed

subsection \<open>The claims about the pipeline\<close>

text \<open>
  C1. For an item whose content resolves to a string and that has a display URL, the
  pipeline yields one Finding exactly when the \<^verbatim>\<open>scanForDomains\<close> result on the content is
  non-empty or the URL contains a watched domain, and the \<^verbatim>\<open>detectCredentials\<close> result on
  the content is non-empty; it yields no Finding exactly when one of the two conditions
  fails.
\<close>

theorem analyzeContent_decision_rule:
  assumes "fst (resolveContent env item (m, w)) = Inr (JStr c)"
      and "item_url item = JStr u" and "u \<noteq> []"
      and "scanForDomains env (JStr c) (domains m) = Inr dm"
      and "detectCredentials env (JStr c) = Inr cr"
  shows "((\<exists>f. fst (analyzeContent env item (m, w)) = Inr [f]) \<longleftrightarrow>
            (dm \<noteq> [] \<or> (\<exists>d\<in>set (domains m). sublist d u)) \<and> cr \<noteq> [])
       \<and> (fst (analyzeContent env item (m, w)) = Inr [] \<longleftrightarrow>
            \<not> ((dm \<noteq> [] \<or> (\<exists>d\<in>set (domains m). sublist d u)) \<and> cr \<noteq> []))"
proof -
  from resolveContent_pair [OF assms(1)] obtain w1
    where r: "resolveContent env item (m, w) = (Inr (JStr c), (m, w1))" by blast
  have dc: "domain_condition dm (item_url item) (domains m)
              = Inr (dm \<noteq> [] \<or> (\<exists>d\<in>set (domains m). sublist d u))"
    by (simp add: assms(2,3) domain_condition_JStr)
  show ?thesis
  proof (cases "(dm \<noteq> [] \<or> (\<exists>d\<in>set (domains m). sublist d u)) \<and> cr \<noteq> []")
    case True
    then have "domain_condition dm (item_url item) (domains m) = Inr True" "cr \<noteq> []"
      using dc by simp_all
    from analyzeContent_hit [OF r assms(4) this(1) assms(5) this(2), of "take 200 c"] True
    show ?thesis by simp
  next
    case False
    then have "domain_condition dm (item_url item) (domains m) = Inr False
               \<or> detectCredentials env (JStr c) = Inr []"
      using dc assms(5) by auto
    from analyzeContent_miss [OF r assms(4) this] False
    show ?thesis by simp
  qed
qed

theorem analyzeContent_decision_rule_witness:
  "(\<exists>f. fst (analyzeContent (example_env offline) url_only_gist (acme_monitor, fresh_world)) = Inr [f])
   \<and> fst (analyzeContent (example_env offline) harmless_gist (acme_monitor, fresh_world)) = Inr []"
proof -
  have 1: "fst (resolveContent (example_env offline) url_only_gist (acme_monitor, fresh_world))
             = Inr (JStr ''password=hunter2'')"
    by (simp add: resolve_url_only_gist)
  have 2: "fst (resolveContent (example_env offline) harmless_gist (acme_monitor, fresh_world))
             = Inr (JStr ''visit acme.com for info'')"
    by (simp add: resolve_harmless_gist)
  have u: "''https://github.com/foo/acme.com-configs'' \<noteq> []" "''https://gist.github.com/g2'' \<noteq> []"
    by simp_all
  have d1: "scanForDomains (example_env offline) (JStr ''password=hunter2'') (domains acme_monitor) = Inr []"
    by (simp add: acme_domains scan_password)
  have d2: "scanForDomains (example_env offline) (JStr ''visit acme.com for info'') (domains acme_monitor)
              = Inr [''acme.com'']"
    by (simp add: acme_domains scan_visit)
  from analyzeContent_decision_rule [OF 1 url_only_gist_url u(1) d1 detect_password]
       analyzeContent_decision_rule [OF 2 harmless_gist_url u(2) d2 detect_visit]
  show ?thesis
    by (simp add: acme_domains acme_in_url)
qed

text \<open>
  C3, as the code has it. Every Finding of the pipeline is made from the content that the
  item resolves to: its credential kinds are what \<^verbatim>\<open>detectCredentials\<close> returns for that
  content, and they are not empty; its matched domains are exactly what \<^verbatim>\<open>scanForDomains\<close>
  returns for that content and the watched domains; its snippet is the beginning of that
  content; its type, source, path and URL are those of the item. The matched domains are
  empty for a Finding that was let through by its URL alone: then some watched domain is
  included in the URL of the item.
\<close>

theorem finding_credentials_nonempty:
  assumes "analyzeContent env item (m, w) = (Inr fs, s')"
  shows "\<forall>f\<in>set fs. credentials f \<noteq> []
           \<and> (\<exists>content. fst (resolveContent env item (m, w)) = Inr content
                 \<and> scanForDomains env content (domains m) = Inr (matchedDomains f)
                 \<and> detectCredentials env content = Inr (credentials f)
                 \<and> substring0 content 200 = Inr (snippet f))
           \<and> type f = item_type item
           \<and> source f = js_or (item_repository item) (item_id item)
           \<and> path f = js_or (item_path item) (item_filename item)
           \<and> url f = item_url item
           \<and> (matchedDomains f = [] \<longrightarrow>
                 (\<exists>d\<in>set (domains m). js_includes (item_url item) d = Inr True))"
proof -
  obtain r l' m' w' where run: "analyzeContent_try env item ([], (m, w)) = (r, (l', (m', w')))"
    by (metis prod.exhaust)
  from assms have fs: "fs = l'"
    by (auto simp: analyzeContent_def js_defs run split: sum.splits)
  from analyzeContent_try_cases [OF run] show ?thesis
    unfolding fs by (auto dest: domain_condition_True)
qed

theorem finding_credentials_nonempty_witness:
  "fst (analyzeContent (example_env offline) url_only_gist (acme_monitor, fresh_world)) =
     Inr [\<lparr>timestamp = 1000, type = ''gist'', source = JStr ''g1'',
            path = JStr ''notes.txt'', url = JStr ''https://github.com/foo/acme.com-configs'',
            matchedDomains = [], credentials = [''Password Assignment''],
            snippet = ''password=hunter2''\<rparr>]
   \<and> [''Password Assignment''] \<noteq> ([] :: string list)
   \<and> fst (resolveContent (example_env offline) url_only_gist (acme_monitor, fresh_world))
       = Inr (JStr ''password=hunter2'')
   \<and> scanForDomains (example_env offline) (JStr ''password=hunter2'') [''acme.com''] = Inr []
   \<and> detectCredentials (example_env offline) (JStr ''password=hunter2'')
       = Inr [''Password Assignment'']
   \<and> js_includes (item_url url_only_gist) ''acme.com'' = Inr True"
  using finding_credentials_nonempty [OF analyze_url_only_gist [of offline fresh_world]]
  by (simp add: analyze_url_only_gist fresh_world_def acme_domains resolve_url_only_gist
        scan_password detect_password)

text \<open>
  C3 as stated fails: with \<^verbatim>\<open>acme.com\<close> watched, a gist at
  \<^verbatim>\<open>https://github.com/foo/acme.com-configs\<close> whose body is \<^verbatim>\<open>password=hunter2\<close> yields a
  Finding whose matched domains are empty.
\<close>

theorem url_match_finding_without_matched_domains:
  "fst (analyzeContent (example_env offline) url_only_gist (acme_monitor, fresh_world)) =
     Inr [\<lparr>timestamp = 1000, type = ''gist'', source = JStr ''g1'',
            path = JStr ''notes.txt'', url = JStr ''https://github.com/foo/acme.com-configs'',
            matchedDomains = [], credentials = [''Password Assignment''],
            snippet = ''password=hunter2''\<rparr>]"
  by (simp add: analyze_url_only_gist fresh_world_def)

text \<open>
  C7. \<^verbatim>\<open>analyzeContent\<close> never throws and leaves the monitor as it was. An error raised at
  any point of its \<^verbatim>\<open>try\<close> block gives the empty list, and the loop of \<^verbatim>\<open>check\<close> goes on
  with the remaining items from the state the failed analysis left. In particular a failed
  fetch of the content and a throwing \<^verbatim>\<open>scanForDomains\<close> or \<^verbatim>\<open>detectCredentials\<close> give no
  Finding.
\<close>

theorem analyzeContent_isolates_errors:
  "(\<exists>fs w'. analyzeContent env item (m, w) = (Inr fs, (m, w')))
   \<and> (\<forall>e l s'. analyzeContent_try env item ([], (m, w)) = (Inl e, (l, s')) \<longrightarrow>
         analyzeContent env item (m, w) = (Inr [], s') \<and> fst s' = m
         \<and> (\<forall>t rest. analyze_results env (item # rest) (t, (m, w))
                        = analyze_results env rest (t, s')))
   \<and> (\<forall>e. fst (resolveContent env item (m, w)) = Inl e \<longrightarrow>
         fst (analyzeContent env item (m, w)) = Inr [])
   \<and> (\<forall>content e. fst (resolveContent env item (m, w)) = Inr content
         \<and> (scanForDomains env content (domains m) = Inl e \<or> detectCredentials env content = Inl e) \<longrightarrow>
         fst (analyzeContent env item (m, w)) = Inr [])"
proof (intro conjI allI impI)
  show "\<exists>fs w'. analyzeContent env item (m, w) = (Inr fs, (m, w'))"
    using analyzeContent_total [of env item m w] by blast
next
  fix e l s' assume a: "analyzeContent_try env item ([], (m, w)) = (Inl e, (l, s'))"
  then show c: "analyzeContent env item (m, w) = (Inr [], s')"
    by (rule analyzeContent_caught)
  with analyzeContent_total [of env item m w] show "fst s' = m" by auto
  fix t rest
  from c show "analyze_results env (item # rest) (t, (m, w)) = analyze_results env rest (t, s')"
    by (rule analyze_results_skip)
next
  fix e assume "fst (resolveContent env item (m, w)) = Inl e"
  then show "fst (analyzeContent env item (m, w)) = Inr []"
    by (rule analyzeContent_resolve_fails)
next
  fix content e
  assume "fst (resolveContent env item (m, w)) = Inr content
          \<and> (scanForDomains env content (domains m) = Inl e \<or> detectCredentials env content = Inl e)"
  then show "fst (analyzeContent env item (m, w)) = Inr []"
    using analyzeContent_detector_fails by blast
qed

lemma try_code_hit_offline:
  "analyzeContent_try (example_env offline) code_hit ([], (acme_monitor, fresh_world)) =
     (Inl (Rejected ''Network Error''),
      ([], (acme_monitor, fresh_world\<lparr>requests :=
              [Get (JStr ''https://api.github.com/repos/foo/bar/contents/config.yml'') []]\<rparr>)))"
  by (simp add: analyzeContent_try_def resolveContent_def code_hit_def js_defs github_get_def
        example_env_def offline_def fresh_world_def)

lemma scan_number: "scanForDomains (example_env net) (JNum 5) ds = Inl (TypeError ''content is not a string'')"
  by (simp add: example_env_def spec_scanForDomains_def)

lemma broken_detector: "detectCredentials broken_detector_env content = Inl (Rejected ''detector failed'')"
  by (simp add: broken_detector_env_def)

theorem analyzeContent_isolates_errors_witness:
  "analyzeContent (example_env offline) code_hit (acme_monitor, fresh_world) =
     (Inr [], (acme_monitor, fresh_world\<lparr>requests :=
              [Get (JStr ''https://api.github.com/repos/foo/bar/contents/config.yml'') []]\<rparr>))
   \<and> analyze_results (example_env offline) [code_hit, url_only_gist]
         (\<lparr>totalScanned = 2, threatsFound = 0\<rparr>, (acme_monitor, fresh_world))
       = analyze_results (example_env offline) [url_only_gist]
         (\<lparr>totalScanned = 2, threatsFound = 0\<rparr>, (acme_monitor, fresh_world\<lparr>requests :=
              [Get (JStr ''https://api.github.com/repos/foo/bar/contents/config.yml'') []]\<rparr>))
   \<and> fst (analyzeContent (example_env offline) numeric_gist (acme_monitor, fresh_world)) = Inr []
   \<and> fst (analyzeContent broken_detector_env url_only_gist (acme_monitor, fresh_world)) = Inr []"
proof -
  have n: "fst (resolveContent (example_env offline) numeric_gist (acme_monitor, fresh_world)) = Inr (JNum 5)"
    by (simp add: resolve_numeric_gist)
  have b: "fst (resolveContent broken_detector_env url_only_gist (acme_monitor, fresh_world))
             = Inr (JStr ''password=hunter2'')"
    by (simp add: resolve_url_only_gist)
  from analyzeContent_isolates_errors [of "example_env offline" code_hit acme_monitor fresh_world]
       try_code_hit_offline
  have 1: "analyzeContent (example_env offline) code_hit (acme_monitor, fresh_world) =
     (Inr [], (acme_monitor, fresh_world\<lparr>requests :=
              [Get (JStr ''https://api.github.com/repos/foo/bar/contents/config.yml'') []]\<rparr>))"
    and 2: "analyze_results (example_env offline) [code_hit, url_only_gist]
         (\<lparr>totalScanned = 2, threatsFound = 0\<rparr>, (acme_monitor, fresh_world))
       = analyze_results (example_env offline) [url_only_gist]
         (\<lparr>totalScanned = 2, threatsFound = 0\<rparr>, (acme_monitor, fresh_world\<lparr>requests :=
              [Get (JStr ''https://api.github.com/repos/foo/bar/contents/config.yml'') []]\<rparr>))"
    by blast+
  from analyzeContent_isolates_errors [of "example_env offline" numeric_gist acme_monitor fresh_world]
       n scan_number
  have 3: "fst (analyzeContent (example_env offline) numeric_gist (acme_monitor, fresh_world)) = Inr []"
    by blast
  from analyzeContent_isolates_errors [of broken_detector_env url_only_gist acme_monitor fresh_world]
       b broken_detector
  have 4: "fst (analyzeContent broken_detector_env url_only_gist (acme_monitor, fresh_world)) = Inr []"
    by blast
  from 1 2 3 4 show ?thesis by blast
qed

text \<open>
  C10. One call of \<^verbatim>\<open>analyzeContent\<close> returns a list of at most one Finding.
\<close>

theorem analyzeContent_at_most_one:
  "\<exists>fs s'. analyzeContent env item s = (Inr fs, s') \<and> length fs \<le> 1"
proof -
  obtain m w where "s = (m, w)" by (cases s)
  with analyzeContent_total [of env item m w] show ?thesis by blast
qed

section \<open>The connectors\<close>

subsection \<open>Code search\<close>

lemma js_prop_defined:
  "js_prop v name = Inr x \<Longrightarrow> js_prop v other = Inr (field v other)"
  by (cases v) (simp_all add: field_def)

lemma push_code_result_run:
  "push_code_result hit (l, g) =
     (case code_result hit of Inl e \<Rightarrow> (Inl e, (l, g)) | Inr r \<Rightarrow> (Inr (), (l @ [r], g)))"
proof (cases "js_prop hit ''repository''")
  case (Inl e)
  then show ?thesis by (simp add: push_code_result_def code_result_def js_defs)
next
  case (Inr repository)
  from js_prop_defined [OF this]
  have "js_prop hit ''path'' = Inr (field hit ''path'')"
       "js_prop hit ''html_url'' = Inr (field hit ''html_url'')"
       "js_prop hit ''url'' = Inr (field hit ''url'')"
    by simp_all
  with Inr show ?thesis
    by (simp add: push_code_result_def code_result_def js_defs split: sum.splits)
qed

lemma for_of_push_code_result:
  "\<exists>r. for_of hits push_code_result (l, g) = (r, (l @ fst (flatten_hits hits), g))
       \<and> (snd (flatten_hits hits) \<longleftrightarrow> r = Inr ())"
proof (induction hits arbitrary: l)
  case Nil
  show ?case by (simp add: js_defs)
next
  case (Cons hit hits)
  show ?case
  proof (cases "code_result hit")
    case (Inl e)
    then show ?thesis by (simp add: js_defs push_code_result_run)
  next
    case (Inr r)
    from Cons [of "l @ [r]"] obtain r' where
      "for_of hits push_code_result (l @ [r], g) = (r', ((l @ [r]) @ fst (flatten_hits hits), g))"
      "snd (flatten_hits hits) \<longleftrightarrow> r' = Inr ()" by blast
    with Inr show ?thesis by (simp add: js_defs push_code_result_run)
  qed
qed

lemma search_code_run:
  "\<exists>r. search_code env q (l, (m, w)) =
          (r, (l @ fst (hits_of (http env (length (requests w)) (search_query q))),
               (m, w\<lparr>requests := requests w @ [search_query q]\<rparr>)))
       \<and> (snd (hits_of (http env (length (requests w)) (search_query q))) \<longleftrightarrow> r = Inr ())"
proof (cases "http env (length (requests w)) (search_query q)")
  case (Inl e)
  then show ?thesis
    by (simp add: search_code_def js_defs github_get_def hits_of_def search_query_def)
next
  case (Inr data)
  show ?thesis
  proof (cases "js_prop data ''items''")
    case (Inl e)
    with Inr show ?thesis
      by (simp add: search_code_def js_defs github_get_def hits_of_def search_query_def)
  next
    case items: (Inr items)
    show ?thesis
    proof (cases "iterate (js_or items (JArr []))")
      case (Inl e)
      with Inr items show ?thesis
        by (simp add: search_code_def js_defs github_get_def hits_of_def search_query_def)
    next
      case hits: (Inr hits)
      from for_of_push_code_result [of hits l "(m, w\<lparr>requests := requests w @ [search_query q]\<rparr>)"]
      obtain r where "for_of hits push_code_result (l, (m, w\<lparr>requests := requests w @ [search_query q]\<rparr>))
            = (r, (l @ fst (flatten_hits hits), (m, w\<lparr>requests := requests w @ [search_query q]\<rparr>)))"
          "snd (flatten_hits hits) \<longleftrightarrow> r = Inr ()" by blast
      with Inr items hits show ?thesis
        by (simp add: search_code_def js_defs github_get_def hits_of_def search_query_def)
    qed
  qed
qed

text \<open>The block for one domain never throws; it sends one or two requests.\<close>

lemma search_domain_run:
  "\<exists>w'. search_domain env d (l, (m, w)) =
           (Inr (), (l @ snd (expected_search env [d] (length (requests w))), (m, w')))
        \<and> requests w' = requests w @ fst (expected_search env [d] (length (requests w)))"
proof -
  let ?n = "length (requests w)"
  let ?w1 = "w\<lparr>requests := requests w @ [search_query (d @ '' password'')]\<rparr>"
  let ?h1 = "hits_of (http env ?n (search_query (d @ '' password'')))"
  from search_code_run [of env "d @ '' password''" l m w] obtain r1 where
    1: "search_code env (d @ '' password'') (l, (m, w)) = (r1, (l @ fst ?h1, (m, ?w1)))"
       "snd ?h1 \<longleftrightarrow> r1 = Inr ()" by blast
  show ?thesis
  proof (cases "snd ?h1")
    case False
    with 1 obtain e where "r1 = Inl e" by (cases r1) auto
    with 1 False show ?thesis
      by (simp add: search_domain_def js_defs console_error_def)
  next
    case True
    let ?h2 = "hits_of (http env (Suc ?n) (search_query (d @ '' api_key'')))"
    let ?w2 = "?w1\<lparr>requests := requests ?w1 @ [search_query (d @ '' api_key'')]\<rparr>"
    from search_code_run [of env "d @ '' api_key''" "l @ fst ?h1" m ?w1] obtain r2 where
      2: "search_code env (d @ '' api_key'') (l @ fst ?h1, (m, ?w1)) = (r2, ((l @ fst ?h1) @ fst ?h2, (m, ?w2)))"
      by auto
    from 1 True have r1: "r1 = Inr ()" by simp
    show ?thesis
    proof (cases r2)
      case (Inr u)
      with 1 2 r1 True show ?thesis
        by (simp add: search_domain_def js_defs)
    next
      case (Inl e)
      with 1 2 r1 True show ?thesis
        by (simp add: search_domain_def js_defs console_error_def)
    qed
  qed
qed

lemma for_of_search_domain:
  "\<exists>w'. for_of ds (search_domain env) (l, (m, w)) =
           (Inr (), (l @ snd (expected_search env ds (length (requests w))), (m, w')))
        \<and> requests w' = requests w @ fst (expected_search env ds (length (requests w)))"
proof (induction ds arbitrary: l w)
  case Nil
  show ?case by (simp add: js_defs)
next
  case (Cons d ds)
  let ?n = "length (requests w)"
  from search_domain_run [of env d l m w] obtain w1 where
    1: "search_domain env d (l, (m, w)) = (Inr (), (l @ snd (expected_search env [d] ?n), (m, w1)))"
       "requests w1 = requests w @ fst (expected_search env [d] ?n)" by blast
  from Cons [of "l @ snd (expected_search env [d] ?n)" w1] obtain w2 where
    2: "for_of ds (search_domain env) (l @ snd (expected_search env [d] ?n), (m, w1)) =
          (Inr (), ((l @ snd (expected_search env [d] ?n)) @ snd (expected_search env ds (length (requests w1))), (m, w2)))"
       "requests w2 = requests w1 @ fst (expected_search env ds (length (requests w1)))" by blast
  from 1 2 show ?case
    by (auto simp: js_defs)
qed

lemma scanCodeSearch_run:
  "\<exists>w'. scanCodeSearch env (m, w) = (Inr (snd (expected_search env (domains m) (length (requests w)))), (m, w'))
        \<and> requests w' = requests w @ fst (expected_search env (domains m) (length (requests w)))"
proof -
  from for_of_search_domain [of "domains m" env "[]" m w] obtain w' where
    "for_of (domains m) (search_domain env) ([], (m, w)) =
           (Inr (), (snd (expected_search env (domains m) (length (requests w))), (m, w')))"
    "requests w' = requests w @ fst (expected_search env (domains m) (length (requests w)))"
    by auto
  then show ?thesis
    by (simp add: scanCodeSearch_def js_defs)
qed

lemma expected_search_all_ok:
  assumes "\<And>n q. snd (hits_of (http env n (search_query q)))"
  shows "fst (expected_search env ds n) =
           concat (map (\<lambda>d. [search_query (d @ '' password''), search_query (d @ '' api_key'')]) ds)"
  by (induction ds arbitrary: n) (simp_all add: assms)

lemma expected_search_password:
  "d \<in> set ds \<Longrightarrow> search_query (d @ '' password'') \<in> set (fst (expected_search env ds n))"
  by (induction ds arbitrary: n) auto

lemma expected_search_offline:
  assumes "\<And>n q. \<exists>e. http env n (search_query q) = Inl e"
  shows "expected_search env ds n = (map (\<lambda>d. search_query (d @ '' password'')) ds, [])"
proof (induction ds arbitrary: n)
  case Nil
  show ?case by simp
next
  case (Cons d ds)
  from assms obtain e where "http env n (search_query (d @ '' password'')) = Inl e" by blast
  then show ?case by (simp add: hits_of_def Cons)
qed

text \<open>
  C6, as the code has it. The connector never throws and leaves the monitor alone. For
  each watched domain, in order, it sends the password query with a page size of 30 and,
  if that query and the flattening of its hits raised no error, the API key query with a
  page size of 30; its results are the hits flattened up to the first error of each
  domain. Whatever fails, the password query of every watched domain is sent; and if no
  query fails, the requests are exactly the two queries of each domain.
\<close>

theorem scanCodeSearch_queries:
  "\<exists>w'. scanCodeSearch env (m, w) =
            (Inr (snd (expected_search env (domains m) (length (requests w)))), (m, w'))
        \<and> requests w' = requests w @ fst (expected_search env (domains m) (length (requests w)))
        \<and> (\<forall>d\<in>set (domains m). search_query (d @ '' password'') \<in> set (requests w'))
        \<and> ((\<forall>n q. snd (hits_of (http env n (search_query q)))) \<longrightarrow>
              requests w' = requests w @ concat (map (\<lambda>d.
                 [search_query (d @ '' password''), search_query (d @ '' api_key'')]) (domains m)))"
proof -
  from scanCodeSearch_run [of env m w] obtain w' where
    run: "scanCodeSearch env (m, w) =
            (Inr (snd (expected_search env (domains m) (length (requests w)))), (m, w'))"
         "requests w' = requests w @ fst (expected_search env (domains m) (length (requests w)))"
    by blast
  have "\<forall>d\<in>set (domains m). search_query (d @ '' password'') \<in> set (requests w')"
    by (simp add: run(2) expected_search_password)
  moreover have "(\<forall>n q. snd (hits_of (http env n (search_query q)))) \<longrightarrow>
              requests w' = requests w @ concat (map (\<lambda>d.
                 [search_query (d @ '' password''), search_query (d @ '' api_key'')]) (domains m))"
    by (simp add: run(2) expected_search_all_ok)
  ultimately show ?thesis using run by blast
qed

lemma hits_of_one_hit: "hits_of (one_hit n r) = ([code_hit], True)"
  by (simp add: hits_of_def one_hit_def js_or_def code_result_def field_def code_hit_def)

theorem scanCodeSearch_queries_witness:
  "fst (scanCodeSearch (example_env one_hit) (acme_monitor, fresh_world)) = Inr [code_hit, code_hit]
   \<and> requests (snd (snd (scanCodeSearch (example_env one_hit) (acme_monitor, fresh_world))))
       = [search_query ''acme.com password'', search_query ''acme.com api_key'']"
proof -
  have ok: "\<forall>n q. snd (hits_of (http (example_env one_hit) n (search_query q)))"
    by (simp add: example_env_def hits_of_one_hit)
  from scanCodeSearch_queries [of "example_env one_hit" acme_monitor fresh_world] ok
  show ?thesis
    by (auto simp: acme_domains example_env_def hits_of_one_hit fresh_world_def)
qed

text \<open>
  C6 as stated fails: with \<^verbatim>\<open>acme.com\<close> watched and a network that rejects every request,
  the connector sends the password query and no API key query.
\<close>

theorem failed_password_query_skips_api_key_query:
  "requests (snd (snd (scanCodeSearch (example_env offline) (acme_monitor, fresh_world))))
     = [search_query ''acme.com password'']"
proof -
  have "\<And>n r. \<exists>e. http (example_env offline) n r = Inl e"
    by (simp add: example_env_def offline_def)
  from expected_search_offline [of "example_env offline" "[''acme.com'']" 0, OF this]
  have "expected_search (example_env offline) [''acme.com''] 0
               = ([search_query ''acme.com password''], [])"
    by simp
  with scanCodeSearch_run [of "example_env offline" acme_monitor fresh_world]
  show ?thesis
    by (auto simp: acme_domains fresh_world_def)
qed

subsection \<open>Gists\<close>

lemma js_prop_not_null: "v \<noteq> JNull \<Longrightarrow> v \<noteq> JUndefined \<Longrightarrow> js_prop v name = Inr (field v name)"
  by (cases v) (simp_all add: field_def)

text \<open>The loops over the gists and their files only work on the local results.\<close>

lemma push_gist_file_local: "\<exists>r l'. \<forall>g. push_gist_file gist fd (l, g) = (r, (l', g))"
proof -
  obtain filename fileData where fd: "fd = (filename, fileData)" by (cases fd)
  show ?thesis
    unfolding fd
    by (cases "js_prop gist ''id''"; cases "js_prop gist ''html_url''";
        cases "js_prop fileData ''content''") (simp_all add: push_gist_file_def js_defs)
qed

lemma for_of_local:
  assumes "\<And>x l. \<exists>r l'. \<forall>g. body x (l, g) = (r, (l', g))"
  shows "\<exists>r l'. \<forall>g. for_of xs body (l, g) = (r, (l', g))"
proof (induction xs arbitrary: l)
  case Nil
  show ?case by (simp add: js_defs)
next
  case (Cons x xs)
  from assms [of x l] obtain r1 l1 where 1: "\<And>g. body x (l, g) = (r1, (l1, g))" by blast
  from Cons [of l1] obtain r2 l2 where 2: "\<And>g. for_of xs body (l1, g) = (r2, (l2, g))" by blast
  show ?case
  proof (cases r1)
    case (Inl e)
    with 1 show ?thesis by (simp add: js_defs)
  next
    case (Inr u)
    with 1 2 show ?thesis by (simp add: js_defs)
  qed
qed

lemma push_gist_files_local: "\<exists>r l'. \<forall>g. push_gist_files gist (l, g) = (r, (l', g))"
proof (cases "js_prop gist ''files''")
  case (Inl e)
  then show ?thesis by (simp add: push_gist_files_def js_defs)
next
  case files: (Inr files)
  show ?thesis
  proof (cases "entries files")
    case (Inl e)
    with files show ?thesis by (simp add: push_gist_files_def js_defs)
  next
    case (Inr fs)
    have "\<exists>r l'. \<forall>g. for_of fs (push_gist_file gist) (l, g) = (r, (l', g))"
      by (rule for_of_local) (rule push_gist_file_local)
    then show ?thesis using files Inr
      by (simp add: push_gist_files_def js_defs)
  qed
qed

lemma for_of_gists_local: "\<exists>r l'. \<forall>g. for_of gists push_gist_files (l, g) = (r, (l', g))"
  by (rule for_of_local) (rule push_gist_files_local)

lemma scanGists_run:
  "\<exists>results errs. \<forall>m. scanGists env (m, w) =
      (Inr results, (m, w\<lparr>requests := requests w @ [gists_query],
                           console := console w @ (if verbose m then errs else [])\<rparr>))"
proof (cases "http env (length (requests w)) gists_query")
  case (Inl e)
  then have "\<forall>m. scanGists env (m, w) =
      (Inr [], (m, w\<lparr>requests := requests w @ [gists_query],
                     console := console w @ (if verbose m then [Err (GistsError (message e))] else [])\<rparr>))"
    by (simp add: scanGists_def js_defs github_get_def gists_query_def console_error_def)
  then show ?thesis by blast
next
  case data: (Inr data)
  show ?thesis
  proof (cases "iterate data")
    case (Inl e)
    with data have "\<forall>m. scanGists env (m, w) =
      (Inr [], (m, w\<lparr>requests := requests w @ [gists_query],
                     console := console w @ (if verbose m then [Err (GistsError (message e))] else [])\<rparr>))"
      by (simp add: scanGists_def js_defs github_get_def gists_query_def console_error_def)
    then show ?thesis by blast
  next
    case (Inr gists)
    from for_of_gists_local [of gists "[]"] obtain r l' where
      loop: "\<And>g. for_of gists push_gist_files ([], g) = (r, (l', g))" by blast
    show ?thesis
    proof (cases r)
      case (Inl e)
      with data Inr loop have "\<forall>m. scanGists env (m, w) =
        (Inr l', (m, w\<lparr>requests := requests w @ [gists_query],
                     console := console w @ (if verbose m then [Err (GistsError (message e))] else [])\<rparr>))"
        by (simp add: scanGists_def js_defs github_get_def gists_query_def console_error_def)
      then show ?thesis by blast
    next
      case ok: (Inr u)
      with data Inr loop have "\<forall>m. scanGists env (m, w) =
        (Inr l', (m, w\<lparr>requests := requests w @ [gists_query],
                     console := console w @ (if verbose m then [] else [])\<rparr>))"
        by (simp add: scanGists_def js_defs github_get_def gists_query_def)
      then show ?thesis by blast
    qed
  qed
qed

lemma scanGists_fetch_fails:
  assumes "http env (length (requests w)) gists_query = Inl e"
  shows "fst (scanGists env (m, w)) = Inr []"
  using assms
  by (simp add: scanGists_def js_defs github_get_def gists_query_def console_error_def)

lemma for_of_files_well_formed:
  assumes "js_prop gist ''files'' = Inr files"
      and "list_all (\<lambda>(filename, fileData). fileData \<noteq> JNull \<and> fileData \<noteq> JUndefined) fs"
  shows "for_of fs (push_gist_file gist) (l, g)
     = (Inr (), (l @ map (\<lambda>(filename, fileData).
            GistResult (field gist ''id'') filename (field gist ''html_url'') (field fileData ''content'')) fs, g))"
  using assms(2)
proof (induction fs arbitrary: l)
  case Nil
  show ?case by (simp add: js_defs)
next
  case (Cons fd fs)
  obtain filename fileData where fd: "fd = (filename, fileData)" by (cases fd)
  with Cons.prems have "js_prop fileData ''content'' = Inr (field fileData ''content'')"
    by (simp add: js_prop_not_null)
  moreover from js_prop_defined [OF assms(1)]
  have "js_prop gist ''id'' = Inr (field gist ''id'')"
       "js_prop gist ''html_url'' = Inr (field gist ''html_url'')" by simp_all
  moreover from Cons.prems have "list_all (\<lambda>(filename, fileData). fileData \<noteq> JNull \<and> fileData \<noteq> JUndefined) fs"
    by simp
  ultimately show ?case
    using Cons.IH [of "l @ [GistResult (field gist ''id'') filename (field gist ''html_url'') (field fileData ''content'')]"]
    by (simp add: fd js_defs push_gist_file_def)
qed

lemma push_gist_files_well_formed:
  assumes "well_formed_gist gist"
  shows "push_gist_files gist (l, g) = (Inr (), (l @ gist_file_items gist, g))"
proof -
  from assms obtain fs where files: "js_prop gist ''files'' = Inr (JObj fs)"
    and fs: "list_all (\<lambda>(filename, fileData). fileData \<noteq> JNull \<and> fileData \<noteq> JUndefined) fs"
    by (auto simp: well_formed_gist_def split: sum.splits jsval.splits)
  from for_of_files_well_formed [OF files fs, of l g] files show ?thesis
    by (simp add: push_gist_files_def js_defs gist_file_items_def gist_files_def)
qed

lemma for_of_gists_well_formed:
  assumes "list_all well_formed_gist gists"
  shows "for_of gists push_gist_files (l, g) = (Inr (), (l @ concat (map gist_file_items gists), g))"
  using assms
  by (induction gists arbitrary: l) (simp_all add: js_defs push_gist_files_well_formed)

lemma scanGists_well_formed:
  assumes "http env (length (requests w)) gists_query = Inr (JArr gists)"
      and "list_all well_formed_gist gists"
  shows "fst (scanGists env (m, w)) = Inr (concat (map gist_file_items gists))"
  using assms(1) for_of_gists_well_formed [OF assms(2), of "[]"]
  by (simp add: scanGists_def js_defs github_get_def gists_query_def)

lemma length_gist_file_items:
  "length (concat (map gist_file_items gists)) = sum_list (map (\<lambda>g. length (gist_files g)) gists)"
  by (induction gists) (simp_all add: gist_file_items_def)

text \<open>
  C8. The gist connector never throws and leaves the monitor alone. It sends one request,
  for one page of 30 public gists, and what it returns and what it does to the world do
  not depend on the watched domains. If the request fails it returns the empty list. If
  the request returns a list of gists, it returns one gist result for each file of each
  gist, with the content of the file, so as many results as there are files.
\<close>

theorem scanGists_one_page:
  "(\<exists>results w'. scanGists env (m, w) = (Inr results, (m, w'))
       \<and> requests w' = requests w @ [gists_query])
   \<and> (\<forall>ds. fst (scanGists env (m\<lparr>domains := ds\<rparr>, w)) = fst (scanGists env (m, w))
          \<and> snd (snd (scanGists env (m\<lparr>domains := ds\<rparr>, w))) = snd (snd (scanGists env (m, w))))
   \<and> (\<forall>e. http env (length (requests w)) gists_query = Inl e \<longrightarrow>
          fst (scanGists env (m, w)) = Inr [])
   \<and> (\<forall>gists. http env (length (requests w)) gists_query = Inr (JArr gists)
          \<and> list_all well_formed_gist gists \<longrightarrow>
          fst (scanGists env (m, w)) = Inr (concat (map gist_file_items gists))
          \<and> length (concat (map gist_file_items gists))
              = sum_list (map (\<lambda>g. length (gist_files g)) gists))"
proof -
  from scanGists_run [of env w] obtain results errs where
    run: "\<And>m. scanGists env (m, w) =
      (Inr results, (m, w\<lparr>requests := requests w @ [gists_query],
                           console := console w @ (if verbose m then errs else [])\<rparr>))"
    by blast
  have "\<exists>results w'. scanGists env (m, w) = (Inr results, (m, w'))
       \<and> requests w' = requests w @ [gists_query]"
    by (simp add: run)
  moreover have "\<forall>ds. fst (scanGists env (m\<lparr>domains := ds\<rparr>, w)) = fst (scanGists env (m, w))
          \<and> snd (snd (scanGists env (m\<lparr>domains := ds\<rparr>, w))) = snd (snd (scanGists env (m, w)))"
    by (simp add: run)
  ultimately show ?thesis
    by (simp add: scanGists_fetch_fails scanGists_well_formed length_gist_file_items)
qed

lemma two_gists_well_formed: "list_all well_formed_gist two_gists"
  by (simp add: two_gists_def well_formed_gist_def)

lemma two_gists_items:
  "concat (map gist_file_items two_gists) =
     [GistResult (JStr ''g1'') ''a.txt'' (JStr ''https://gist.github.com/g1'') (JStr ''password=hunter2 acme.com''),
      GistResult (JStr ''g1'') ''b.txt'' (JStr ''https://gist.github.com/g1'') (JStr ''nothing here''),
      GistResult (JStr ''g2'') ''c.txt'' (JStr ''https://gist.github.com/g2'') (JStr ''api_key=abc for acme.com'')]"
  by (simp add: two_gists_def gist_file_items_def gist_files_def field_def)

theorem scanGists_one_page_witness:
  "fst (scanGists (example_env gists_only) (acme_monitor, fresh_world)) =
     Inr [GistResult (JStr ''g1'') ''a.txt'' (JStr ''https://gist.github.com/g1'') (JStr ''password=hunter2 acme.com''),
          GistResult (JStr ''g1'') ''b.txt'' (JStr ''https://gist.github.com/g1'') (JStr ''nothing here''),
          GistResult (JStr ''g2'') ''c.txt'' (JStr ''https://gist.github.com/g2'') (JStr ''api_key=abc for acme.com'')]
   \<and> fst (scanGists (example_env offline) (acme_monitor, fresh_world)) = Inr []"
proof -
  have 1: "http (example_env gists_only) (length (requests fresh_world)) gists_query = Inr (JArr two_gists)"
    by (simp add: example_env_def gists_only_def)
  have 2: "http (example_env offline) (length (requests fresh_world)) gists_query = Inl (Rejected ''Network Error'')"
    by (simp add: example_env_def offline_def)
  from scanGists_one_page [of "example_env gists_only" acme_monitor fresh_world] 1 two_gists_well_formed
  have "fst (scanGists (example_env gists_only) (acme_monitor, fresh_world))
          = Inr (concat (map gist_file_items two_gists))" by blast
  moreover from scanGists_one_page [of "example_env offline" acme_monitor fresh_world] 2
  have "fst (scanGists (example_env offline) (acme_monitor, fresh_world)) = Inr []" by blast
  ultimately show ?thesis by (simp add: two_gists_items)
qed

section \<open>One scan\<close>












subsection \<open>The two \<^verbatim>\<open>try\<close> statements\<close>

lemma scan_phase_total: "\<exists>s'. scan_phase connector announce failed env s = (Inr (), s')"
proof -
  obtain t m w where s: "s = (t, (m, w))" by (cases s) auto
  show ?thesis
    unfolding scan_phase_def try_catch_def s
    by (auto simp: outer_def console_error_def split: sum.splits prod.splits)
qed


lemma scan_phase_returns:
  assumes "connector (m, announced m announce w) = (Inr items, (m1, w1))"
      and "analyze_results env items (t\<lparr>totalScanned := totalScanned t + length items\<rparr>, (m1, w1))
             = (Inr (), s')"
  shows "scan_phase connector announce failed env (t, (m, w)) = (Inr (), s')"
  using assms
  by (cases "verbose m")
     (simp_all add: scan_phase_def js_defs console_log_def announced_def)


lemma check_with_phases:
  assumes "scan_phase codeSearch SearchingCode ErrorScanningCode env
             (\<lparr>totalScanned = 0, threatsFound = 0\<rparr>,
              (m\<lparr>lastCheck := Some (clock env (clock_reads w))\<rparr>,
               w\<lparr>clock_reads := Suc (clock_reads w),
                  console := console w @ [Log (Scanning (clock env (clock_reads w)))]\<rparr>))
             = (Inr (), s1)"
      and "scan_phase gists ScanningGists ErrorScanningGists env s1 = (Inr (), (t2, (m2, w2)))"
  shows "check_with codeSearch gists env (m, w) =
           (Inr (), (m2, w2\<lparr>console := console w2 @ [Log (Scanned (totalScanned t2) (threatsFound t2))]\<rparr>))"
  using assms
  by (simp add: check_with_def js_defs new_Date_def console_log_def)

lemma check_with_total: "\<exists>s'. check_with codeSearch gists env s = (Inr (), s')"
proof -
  obtain m w where s: "s = (m, w)" by (cases s)
  from scan_phase_total obtain s1 where
    1: "scan_phase codeSearch SearchingCode ErrorScanningCode env
             (\<lparr>totalScanned = 0, threatsFound = 0\<rparr>,
              (m\<lparr>lastCheck := Some (clock env (clock_reads w))\<rparr>,
               w\<lparr>clock_reads := Suc (clock_reads w),
                  console := console w @ [Log (Scanning (clock env (clock_reads w)))]\<rparr>))
             = (Inr (), s1)" by blast
  from scan_phase_total obtain s2 where
    2: "scan_phase gists ScanningGists ErrorScanningGists env s1 = (Inr (), s2)" by blast
  obtain t2 m2 w2 where "s2 = (t2, (m2, w2))" by (cases s2) auto
  with check_with_phases [OF 1] 2 show ?thesis by (simp add: s)
qed

lemma check_with_both_throw:
  "check_with (js_throw e1) (js_throw e2) env (m, w) =
     (Inr (),
      (m\<lparr>lastCheck := Some (clock env (clock_reads w))\<rparr>,
       w\<lparr>clock_reads := Suc (clock_reads w),
          console := console w
            @ [Log (Scanning (clock env (clock_reads w)))]
            @ (if verbose m then [Log SearchingCode] else [])
            @ [Err (ErrorScanningCode (message e1))]
            @ (if verbose m then [Log ScanningGists] else [])
            @ [Err (ErrorScanningGists (message e2)),
               Log (Scanned 0 0)]\<rparr>))"
  by (simp add: check_with_def scan_phase_def js_defs new_Date_def console_log_def console_error_def)




lemma analyze_results_Nil: "analyze_results env [] s = (Inr (), s)"
  by (simp add: analyze_results_def js_defs)

lemma check_offline:
  assumes "\<And>n r. \<exists>e. http env n r = Inl e"
  shows "\<exists>w'. check env (m, w) = (Inr (), (m\<lparr>lastCheck := Some (clock env (clock_reads w))\<rparr>, w'))
           \<and> last (console w') = Log (Scanned 0 0)"
proof -
  let ?t = "\<lparr>totalScanned = 0, threatsFound = 0\<rparr>"
  let ?m0 = "m\<lparr>lastCheck := Some (clock env (clock_reads w))\<rparr>"
  let ?w0 = "w\<lparr>clock_reads := Suc (clock_reads w),
               console := console w @ [Log (Scanning (clock env (clock_reads w)))]\<rparr>"
  from scanCodeSearch_run [of env ?m0 "announced ?m0 SearchingCode ?w0"]
       expected_search_offline [of env, OF assms]
  obtain w1 where 1: "scanCodeSearch env (?m0, announced ?m0 SearchingCode ?w0) = (Inr [], (?m0, w1))"
    by auto
  have p1: "scan_phase (scanCodeSearch env) SearchingCode ErrorScanningCode env (?t, (?m0, ?w0))
              = (Inr (), (?t, (?m0, w1)))"
    by (rule scan_phase_returns [where connector = "scanCodeSearch env" and announce = SearchingCode
          and m = ?m0 and w = ?w0, OF 1]) (simp add: analyze_results_Nil)
  from assms obtain e where "http env (length (requests (announced ?m0 ScanningGists w1))) gists_query = Inl e"
    by blast
  from scanGists_fetch_fails [OF this, of ?m0] scanGists_run [of env "announced ?m0 ScanningGists w1"]
  obtain w2 where 2: "scanGists env (?m0, announced ?m0 ScanningGists w1) = (Inr [], (?m0, w2))"
    by auto
  have p2: "scan_phase (scanGists env) ScanningGists ErrorScanningGists env (?t, (?m0, w1))
              = (Inr (), (?t, (?m0, w2)))"
    by (rule scan_phase_returns [where connector = "scanGists env" and announce = ScanningGists
          and m = ?m0 and w = w1, OF 2]) (simp add: analyze_results_Nil)
  from check_with_phases [OF p1 p2] show ?thesis
    by (simp add: check_def)
qed

text \<open>
  C2. \<^verbatim>\<open>check\<close> completes normally whatever its connectors do, the connectors of the program
  or any others put in their place. When both connectors throw, the monitor is as before
  but for the time of the scan, so the accumulated findings are unchanged, and the scan
  reports 0 items and 0 findings. The same holds for the connectors of the program when
  every request is rejected.
\<close>

theorem check_never_raises:
  "(\<exists>s'. check_with codeSearch gists env s = (Inr (), s'))
   \<and> (\<exists>s'. check env s = (Inr (), s'))
   \<and> check_with (js_throw e1) (js_throw e2) env (m, w) =
       (Inr (),
        (m\<lparr>lastCheck := Some (clock env (clock_reads w))\<rparr>,
         w\<lparr>clock_reads := Suc (clock_reads w),
            console := console w
              @ [Log (Scanning (clock env (clock_reads w)))]
              @ (if verbose m then [Log SearchingCode] else [])
              @ [Err (ErrorScanningCode (message e1))]
              @ (if verbose m then [Log ScanningGists] else [])
              @ [Err (ErrorScanningGists (message e2)),
                 Log (Scanned 0 0)]\<rparr>))
   \<and> ((\<forall>n r. \<exists>e. http env n r = Inl e) \<longrightarrow>
        (\<exists>w'. check env (m, w) = (Inr (), (m\<lparr>lastCheck := Some (clock env (clock_reads w))\<rparr>, w'))
            \<and> last (console w') = Log (Scanned 0 0)))"
  using check_with_total [of codeSearch gists env s]
        check_with_total [of "scanCodeSearch env" "scanGists env" env s]
        check_with_both_throw [of e1 e2 env m w]
        check_offline [of env m w]
  by (simp add: check_def)

theorem check_never_raises_witness:
  "\<exists>w'. check (example_env offline) (acme_monitor, fresh_world)
           = (Inr (), (acme_monitor\<lparr>lastCheck := Some 1000\<rparr>, w'))
        \<and> last (console w') = Log (Scanned 0 0)"
proof -
  have "\<forall>n r. \<exists>e. http (example_env offline) n r = Inl e"
    by (simp add: example_env_def offline_def)
  with check_never_raises [of _ _ "example_env offline" _ _ _ acme_monitor fresh_world]
  show ?thesis
    by (simp add: example_env_def fresh_world_def)
qed










































section \<open>The schedule\<close>

lemma keeps_push_findings:
  "keeps collecting (this_modify (\<lambda>m. m\<lparr>findings := findings m @ found\<rparr>))"
  by (simp add: keeps_def this_modify_def collecting_def split: prod.splits)

lemmas collecting_intros = keeps_intros reflp_collecting transp_collecting

lemma keeps_analyze_results: "keeps (framed collecting) (analyze_results env items)"
  unfolding analyze_results_def
  by (intro collecting_intros keeps_push_findings
        read_only_collecting [OF keeps_analyzeContent] read_only_collecting [OF keeps_alert])

lemma keeps_scan_phase:
  assumes "keeps read_only connector" "\<not> is_scanning (Log announce)"
  shows "keeps (framed collecting) (scan_phase connector announce failed env)"
  unfolding scan_phase_def
  by (intro collecting_intros keeps_analyze_results
        read_only_collecting [OF assms(1)]
        read_only_collecting [OF keeps_this_get [OF reflp_read_only]]
        read_only_collecting [OF keeps_console_log [OF assms(2)]]
        read_only_collecting [OF keeps_console_error])

text \<open>A scan begins one scan, touches no timer, and leaves the monitor as it was but for
  the time of the scan and the findings.\<close>

lemma check_run:
  "\<exists>m' w'. check env (m, w) = (Inr (), (m', w'))
     \<and> m' = m\<lparr>lastCheck := Some (clock env (clock_reads w)), findings := findings m'\<rparr>
     \<and> timers w' = timers w \<and> timers_created w' = timers_created w
     \<and> scans_started w' = Suc (scans_started w)"
proof -
  let ?m0 = "m\<lparr>lastCheck := Some (clock env (clock_reads w))\<rparr>"
  let ?w0 = "w\<lparr>clock_reads := Suc (clock_reads w),
               console := console w @ [Log (Scanning (clock env (clock_reads w)))]\<rparr>"
  let ?s0 = "(\<lparr>totalScanned = 0, threatsFound = 0\<rparr>, (?m0, ?w0))"
  from scan_phase_total obtain s1 where
    1: "scan_phase (scanCodeSearch env) SearchingCode ErrorScanningCode env ?s0 = (Inr (), s1)"
    by blast
  obtain t1 m1 w1 where s1: "s1 = (t1, (m1, w1))" by (cases s1) auto
  from scan_phase_total obtain s2 where
    2: "scan_phase (scanGists env) ScanningGists ErrorScanningGists env s1 = (Inr (), s2)"
    by blast
  obtain t2 m2 w2 where s2: "s2 = (t2, (m2, w2))" by (cases s2) auto
  have "keeps (framed collecting) (scan_phase (scanCodeSearch env) SearchingCode ErrorScanningCode env)"
    by (rule keeps_scan_phase [OF keeps_scanCodeSearch]) simp
  from keepsD [OF this 1] have c1: "collecting (?m0, ?w0) (m1, w1)"
    by (simp add: s1 framed_def)
  have "keeps (framed collecting) (scan_phase (scanGists env) ScanningGists ErrorScanningGists env)"
    by (rule keeps_scan_phase [OF keeps_scanGists]) simp
  from keepsD [OF this 2] have c2: "collecting (m1, w1) (m2, w2)"
    by (simp add: s1 s2 framed_def)
  from c1 c2 have c: "collecting (?m0, ?w0) (m2, w2)"
    using transp_collecting by (meson transpD)
  have run: "check env (m, w) =
        (Inr (), (m2, w2\<lparr>console := console w2 @ [Log (Scanned (totalScanned t2) (threatsFound t2))]\<rparr>))"
    unfolding check_def by (rule check_with_phases [OF 1 2 [unfolded s2]])
  from c have "m2 = m\<lparr>lastCheck := Some (clock env (clock_reads w)), findings := findings m2\<rparr>"
    and "timers w2 = timers w" "timers_created w2 = timers_created w"
    and "scans_started w2 = Suc (scans_started w)"
    by (simp_all add: collecting_def scans_started_def)
  with run show ?thesis
    by (simp add: scans_started_def)
qed




lemma js_then_run:
  "js_then c d s = (case c s of (Inl e, s') \<Rightarrow> (Inl e, s') | (Inr x, s') \<Rightarrow> d s')"
  by (simp add: js_then_def js_bind_def)






lemma stop_run:
  "stop (m, w) =
     (Inr (), (m\<lparr>isRunning := False\<rparr>,
               (case intervalId m of
                  None \<Rightarrow> w
                | Some h \<Rightarrow> w\<lparr>timers := filter (\<lambda>t. fst t \<noteq> h) (timers w)\<rparr>)))"
  by (simp add: stop_def js_defs clearInterval_def split: option.splits)








lemma scans_started_append:
  "scans_started (w\<lparr>console := console w @ ls\<rparr>) = scans_started w + length (filter is_scanning ls)"
  by (simp add: scans_started_def)




subsection \<open>A \<^verbatim>\<open>stop\<close> while \<^verbatim>\<open>start\<close> awaits its scan\<close>

text \<open>
  While \<^verbatim>\<open>start\<close> awaits \<^verbatim>\<open>check\<close>, other callbacks can run whenever \<^verbatim>\<open>check\<close> itself awaits
  a request. No statement of \<^verbatim>\<open>check\<close> reads or writes what \<^verbatim>\<open>stop\<close> changes, so \<^verbatim>\<open>stop\<close> at
  any of these points gives what \<^verbatim>\<open>stop\<close> after the scan gives, which is how
  \<open>start_interrupted\<close> has it.
\<close>

lemma commutes_return: "commutes f (js_return x)"
  by (simp add: commutes_def js_return_def)

lemma commutes_throw: "commutes f (js_throw e)"
  by (simp add: commutes_def js_throw_def)

lemma commutes_eval: "commutes f (js_eval r)"
  by (simp add: commutes_def js_eval_def)

lemma commutes_bind:
  assumes "commutes f c" "\<And>x. commutes f (k x)"
  shows "commutes f (js_bind c k)"
  unfolding commutes_def
proof
  fix s
  obtain r s1 where c: "c s = (r, s1)" by (cases "c s")
  with assms(1) have 1: "c (f s) = (r, f s1)" by (simp add: commutes_def)
  show "js_bind c k (f s) = (case js_bind c k s of (r, s') \<Rightarrow> (r, f s'))"
  proof (cases r)
    case (Inl e)
    with c 1 show ?thesis by (simp add: js_bind_def)
  next
    case (Inr x)
    from assms(2) have "k x (f s1) = (case k x s1 of (r, s') \<Rightarrow> (r, f s'))"
      by (simp add: commutes_def)
    with c 1 Inr show ?thesis by (simp add: js_bind_def)
  qed
qed

lemma commutes_then: "commutes f c \<Longrightarrow> commutes f d \<Longrightarrow> commutes f (js_then c d)"
  by (simp add: js_then_def commutes_bind)

lemma commutes_try_catch:
  assumes "commutes f c" "\<And>e. commutes f (handler e)"
  shows "commutes f (try_catch c handler)"
  unfolding commutes_def
proof
  fix s
  obtain r s1 where c: "c s = (r, s1)" by (cases "c s")
  with assms(1) have 1: "c (f s) = (r, f s1)" by (simp add: commutes_def)
  show "try_catch c handler (f s) = (case try_catch c handler s of (r, s') \<Rightarrow> (r, f s'))"
  proof (cases r)
    case (Inr x)
    with c 1 show ?thesis by (simp add: try_catch_def)
  next
    case (Inl e)
    from assms(2) have "handler e (f s1) = (case handler e s1 of (r, s') \<Rightarrow> (r, f s'))"
      by (simp add: commutes_def)
    with c 1 Inl show ?thesis by (simp add: try_catch_def)
  qed
qed

lemma commutes_when: "commutes f c \<Longrightarrow> commutes f (js_when b c)"
  by (simp add: js_when_def commutes_return)

lemma commutes_if: "commutes f c \<Longrightarrow> commutes f d \<Longrightarrow> commutes f (if b then c else d)"
  by simp

lemma commutes_for_of:
  assumes "\<And>x. commutes f (body x)"
  shows "commutes f (for_of xs body)"
  by (induction xs) (simp_all add: assms commutes_return commutes_then)

lemma commutes_outer: "commutes f c \<Longrightarrow> commutes (in_frame_of f) (outer c)"
  by (auto simp: commutes_def in_frame_of_def outer_def split: prod.splits)

lemma commutes_local_get: "commutes (in_frame_of f) local_get"
  by (auto simp: commutes_def in_frame_of_def local_get_def)

lemma commutes_local_modify: "commutes (in_frame_of f) (local_modify g)"
  by (auto simp: commutes_def in_frame_of_def local_modify_def)

lemma commutes_in_frame: "commutes (in_frame_of f) c \<Longrightarrow> commutes f (in_frame l0 c)"
  by (auto simp: commutes_def in_frame_of_def in_frame_def split: prod.splits)

lemma stopped_this_get:
  assumes "\<And>m. g (m\<lparr>isRunning := False\<rparr>) = g m"
  shows "commutes stopped (this_get g)"
  by (auto simp: commutes_def stopped_def this_get_def assms split: option.splits)

lemma stopped_lastCheck: "commutes stopped (this_modify (\<lambda>m. m\<lparr>lastCheck := t\<rparr>))"
  by (auto simp: commutes_def stopped_def this_modify_def split: option.splits)

lemma stopped_push_findings:
  "commutes stopped (this_modify (\<lambda>m. m\<lparr>findings := findings m @ found\<rparr>))"
  by (auto simp: commutes_def stopped_def this_modify_def split: option.splits)

lemma stopped_github_get: "commutes stopped (github_get env u params)"
  by (auto simp: commutes_def stopped_def github_get_def split: option.splits)

lemma stopped_console_log: "commutes stopped (console_log l)"
  by (auto simp: commutes_def stopped_def console_log_def split: option.splits)

lemma stopped_console_error: "commutes stopped (console_error l)"
  by (auto simp: commutes_def stopped_def console_error_def split: option.splits)

lemma stopped_new_Date: "commutes stopped (new_Date env)"
  by (auto simp: commutes_def stopped_def new_Date_def split: option.splits)

lemmas commutes_intros = commutes_return commutes_throw commutes_eval commutes_bind commutes_then
  commutes_try_catch commutes_when commutes_if commutes_for_of commutes_outer commutes_local_get
  commutes_local_modify commutes_in_frame stopped_this_get stopped_lastCheck
  stopped_push_findings stopped_github_get stopped_console_log stopped_console_error
  stopped_new_Date

lemma stopped_scanCodeSearch: "commutes stopped (scanCodeSearch env)"
  unfolding scanCodeSearch_def search_domain_def search_code_def push_code_result_def
  by (intro commutes_intros) simp_all

lemma stopped_scanGists: "commutes stopped (scanGists env)"
  unfolding scanGists_def push_gist_files_def push_gist_file_def split_def
  by (intro commutes_intros) simp_all

lemma stopped_analyzeContent: "commutes stopped (analyzeContent env item)"
  unfolding analyzeContent_def analyzeContent_try_def resolveContent_def
  by (intro commutes_intros) simp_all

lemma stopped_alert: "commutes stopped (alert fs)"
  unfolding alert_def
  by (intro commutes_intros)

lemma stopped_check: "commutes stopped (check env)"
  unfolding check_def check_with_def scan_phase_def analyze_results_def
  by (intro commutes_intros stopped_scanCodeSearch stopped_scanGists stopped_analyzeContent
        stopped_alert) simp_all

lemma stop_stopped: "stop s = (Inr (), stopped s)"
  by (cases s) (simp add: stop_run stopped_def)

text \<open>\<^verbatim>\<open>stop\<close> before the scan that \<^verbatim>\<open>start\<close> awaits and \<^verbatim>\<open>stop\<close> after it are the same.\<close>

lemma stop_before_check: "js_then stop (check env) = js_then (check env) stop"
proof
  fix s :: sys
  obtain m w where s: "s = (m, w)" by (cases s)
  from check_run [of env m w] obtain m1 w1 where
    chk: "check env (m, w) = (Inr (), (m1, w1))" by blast
  from stopped_check [of env] have "check env (stopped s) = (Inr (), stopped (m1, w1))"
    by (simp add: commutes_def s chk)
  then show "js_then stop (check env) s = js_then (check env) stop s"
    by (simp add: js_then_run stop_stopped s chk)
qed

lemma stop_during_await:
  "js_then (this_modify (\<lambda>m. m\<lparr>isRunning := True\<rparr>))
     (js_then (console_log Starting)
        (js_then stop (js_then (check env) start_resumed)))
   = start_interrupted env stop"
proof -
  have "js_then (check env) (js_then stop start_resumed)
          = js_then stop (js_then (check env) start_resumed)"
    by (simp only: js_then_assoc [symmetric] stop_before_check)
  then show ?thesis
    by (simp add: start_interrupted_def start_until_await_def js_then_assoc)
qed

subsection \<open>Where the schedule is not what it is said to be\<close>





subsection \<open>\<^verbatim>\<open>stop\<close>\<close>

text \<open>
  C9. \<^verbatim>\<open>stop\<close> completes normally in every state; afterwards the monitor is not running and
  the timer whose handle the monitor holds is not armed. Calling it again changes
  nothing, and on a monitor that is not running and holds no handle it changes nothing
  at all.
\<close>

theorem stop_idempotent:
  "\<exists>m' w'. stop (m, w) = (Inr (), (m', w'))
     \<and> \<not> isRunning m'
     \<and> (\<forall>h. intervalId m = Some h \<longrightarrow> h \<notin> fst ` set (timers w'))
     \<and> stop (m', w') = (Inr (), (m', w'))
     \<and> (\<not> isRunning m \<and> intervalId m = None \<longrightarrow> (m', w') = (m, w))"
  by (cases "intervalId m") (auto simp: stop_run)

theorem stop_idempotent_witness:
  "stop (running_monitor, running_world)
     = (Inr (), (running_monitor\<lparr>isRunning := False\<rparr>, running_world\<lparr>timers := []\<rparr>))
   \<and> stop (running_monitor\<lparr>isRunning := False\<rparr>, running_world\<lparr>timers := []\<rparr>)
     = (Inr (), (running_monitor\<lparr>isRunning := False\<rparr>, running_world\<lparr>timers := []\<rparr>))
   \<and> stop (acme_monitor, fresh_world) = (Inr (), (acme_monitor, fresh_world))"
proof -
  have r: "intervalId running_monitor = Some 1" "timers running_world = [(1, 1800000)]"
          "\<not> isRunning acme_monitor" "intervalId acme_monitor = None"
    by (simp_all add: running_monitor_def running_world_def acme_monitor_def Monitor_def fresh_world_def)
  have s: "stop (running_monitor, running_world)
     = (Inr (), (running_monitor\<lparr>isRunning := False\<rparr>, running_world\<lparr>timers := []\<rparr>))"
    by (simp add: stop_run r)
  from stop_idempotent [of running_monitor running_world] stop_idempotent [of acme_monitor fresh_world]
  show ?thesis
    by (simp add: s r)
qed

end
